theory Spec2Isabelle
  imports Main "HOL-Library.Multiset"
begin

section \<open>JavaScript values and the built-ins the handler calls\<close>

text \<open>
  Numbers are the integral JavaScript numbers together with \<open>NaN\<close> and the two infinities:
  ids, timestamps, votes, ttl and counts are integers in the data model. On integral values
  the operations used below (strict equality, the sign of a difference, \<open>slice\<close> bounds)
  agree with IEEE doubles.
\<close>

datatype jsnum = NaN | PInf | NInf | Fin int

datatype json =
    JNull
  | JBool bool
  | JNum int
  | JStr string
  | JArr "json list"
  | JObj "(string \<times> json) list"

text \<open>A JavaScript value that may be \<open>undefined\<close>: \<open>None\<close> is \<open>undefined\<close>.\<close>

type_synonym jsval = "json option"

datatype exn =
    SyntaxError string
  | TypeError string
  | ValidationException string

fun message :: "exn \<Rightarrow> string" where
  "message (SyntaxError m) = m"
| "message (TypeError m) = m"
| "message (ValidationException m) = m"

text \<open>
  The language built-ins whose algorithms are not part of the repository are parameters:
  \<open>StringToNumber\<close> is \<open>Number\<close> applied to a string, \<open>ToString\<close> the string an array or
  object converts to, \<open>JSON_parse\<close> is \<open>JSON.parse\<close>, \<open>stack\<close> the stack trace of an error.
  \<open>engine_order\<close> is the order in which the engine's \<open>Array.prototype.sort\<close> leaves an
  array whose comparator is not a consistent ordering, where the language leaves the order
  to the engine: given the results of the comparator on every pair of positions, row by
  row, it lists the old positions in their new order.
\<close>

record runtime =
  StringToNumber :: "string \<Rightarrow> jsnum"
  ToString :: "json \<Rightarrow> string"
  JSON_parse :: "string \<Rightarrow> exn + json"
  stack :: "exn \<Rightarrow> string"
  engine_order :: "jsnum list list \<Rightarrow> nat list"

fun ToNumber :: "runtime \<Rightarrow> jsval \<Rightarrow> jsnum" where
  "ToNumber rt None = NaN"
| "ToNumber rt (Some JNull) = Fin 0"
| "ToNumber rt (Some (JBool b)) = Fin (if b then 1 else 0)"
| "ToNumber rt (Some (JNum n)) = Fin n"
| "ToNumber rt (Some (JStr s)) = StringToNumber rt s"
| "ToNumber rt (Some (JArr xs)) = StringToNumber rt (ToString rt (JArr xs))"
| "ToNumber rt (Some (JObj kvs)) = StringToNumber rt (ToString rt (JObj kvs))"

fun truthy :: "jsval \<Rightarrow> bool" where
  "truthy None = False"
| "truthy (Some JNull) = False"
| "truthy (Some (JBool b)) = b"
| "truthy (Some (JNum n)) = (n \<noteq> 0)"
| "truthy (Some (JStr s)) = (s \<noteq> [])"
| "truthy (Some (JArr xs)) = True"
| "truthy (Some (JObj kvs)) = True"

text \<open>The operator \<open>??\<close>: the right operand replaces \<open>undefined\<close> and \<open>null\<close> only.\<close>

fun nullish_coalesce :: "jsval \<Rightarrow> json \<Rightarrow> json" where
  "nullish_coalesce None d = d"
| "nullish_coalesce (Some JNull) d = d"
| "nullish_coalesce (Some v) d = v"

fun num_add :: "jsnum \<Rightarrow> jsnum \<Rightarrow> jsnum" where
  "num_add NaN y = NaN"
| "num_add x NaN = NaN"
| "num_add PInf NInf = NaN"
| "num_add NInf PInf = NaN"
| "num_add PInf y = PInf"
| "num_add NInf y = NInf"
| "num_add x PInf = PInf"
| "num_add x NInf = NInf"
| "num_add (Fin a) (Fin b) = Fin (a + b)"

fun num_neg :: "jsnum \<Rightarrow> jsnum" where
  "num_neg NaN = NaN"
| "num_neg PInf = NInf"
| "num_neg NInf = PInf"
| "num_neg (Fin a) = Fin (- a)"

definition num_sub :: "jsnum \<Rightarrow> jsnum \<Rightarrow> jsnum" where
  "num_sub x y = num_add x (num_neg y)"

fun decimal :: "nat \<Rightarrow> string" where
  "decimal n =
     (if n < 10 then [''0123456789'' ! n]
      else decimal (n div 10) @ [''0123456789'' ! (n mod 10)])"

declare decimal.simps [simp del]

text \<open>
  \<open>o.hasOwnProperty(name)\<close> for a value that came out of \<open>JSON.parse\<close>. The method is looked
  up on the value itself first: reading a property of \<open>null\<close> throws, and an object whose
  own key is \<open>hasOwnProperty\<close> shadows the inherited method with a JSON value, which is not
  callable. Strings and arrays own their indices and \<open>length\<close>; numbers and booleans own
  nothing.
\<close>

definition hasOwnProperty :: "json \<Rightarrow> string \<Rightarrow> exn + bool" where
  "hasOwnProperty v name =
     (case v of
        JNull \<Rightarrow> Inl (TypeError ''Cannot read properties of null (reading 'hasOwnProperty')'')
      | JObj kvs \<Rightarrow>
          if ''hasOwnProperty'' \<in> set (map fst kvs)
          then Inl (TypeError ''requestJSON.hasOwnProperty is not a function'')
          else Inr (name \<in> set (map fst kvs))
      | JStr s \<Rightarrow> Inr (name = ''length'' \<or> name \<in> set (map decimal [0..<length s]))
      | JArr xs \<Rightarrow> Inr (name = ''length'' \<or> name \<in> set (map decimal [0..<length xs]))
      | JBool b \<Rightarrow> Inr False
      | JNum n \<Rightarrow> Inr False)"

text \<open>
  Reading the property \<open>name\<close> of a parsed value, for a name that no built-in prototype
  defines (the handler reads \<open>content\<close>, \<open>timestamp\<close>, \<open>votes\<close> and \<open>ttl\<close> only): \<open>null\<close>
  throws, an object yields its own value or \<open>undefined\<close>, every other value \<open>undefined\<close>.
\<close>

definition get_property :: "json \<Rightarrow> string \<Rightarrow> exn + jsval" where
  "get_property v name =
     (case v of
        JNull \<Rightarrow> Inl (TypeError (''Cannot read properties of null (reading '' @ name @ '')''))
      | JObj kvs \<Rightarrow> Inr (map_of kvs name)
      | _ \<Rightarrow> Inr None)"

subsection \<open>Array methods\<close>

text \<open>
  \<open>Array.prototype.slice(start, end)\<close>: each bound is truncated to an integer (\<open>NaN\<close> is 0),
  a negative bound counts from the end, and both are clamped to the length.
\<close>

definition relative_index :: "nat \<Rightarrow> jsnum \<Rightarrow> nat" where
  "relative_index len x =
     (case x of
        NaN \<Rightarrow> 0
      | NInf \<Rightarrow> 0
      | PInf \<Rightarrow> len
      | Fin i \<Rightarrow> if i < 0 then nat (max (int len + i) 0) else min (nat i) len)"

definition slice :: "'a list \<Rightarrow> jsnum \<Rightarrow> jsnum \<Rightarrow> 'a list" where
  "slice xs start final =
     (let len = length xs;
          k = relative_index len start;
          fin = relative_index len final
      in take (fin - k) (drop k xs))"

text \<open>\<open>Array.prototype.findIndex\<close>: the index of the first match, or -1.\<close>

fun findIndex :: "('a \<Rightarrow> bool) \<Rightarrow> 'a list \<Rightarrow> int" where
  "findIndex P [] = - 1"
| "findIndex P (x # xs) =
     (if P x then 0
      else (let i = findIndex P xs in if i = - 1 then - 1 else i + 1))"

text \<open>
  \<open>Array.prototype.sort(comparefn)\<close>. A comparator result of \<open>NaN\<close> counts as 0 when two
  elements are compared. The comparator is a consistent ordering of the elements when
  its result is never \<open>NaN\<close>, every element compares equal to itself, comparing equal is
  symmetric and transitive, and comparing less and comparing greater are transitive.
\<close>

fun positive :: "jsnum \<Rightarrow> bool" where
  "positive NaN = False"
| "positive PInf = True"
| "positive NInf = False"
| "positive (Fin v) = (0 < v)"

fun negative :: "jsnum \<Rightarrow> bool" where
  "negative NaN = False"
| "negative PInf = False"
| "negative NInf = True"
| "negative (Fin v) = (v < 0)"

fun is_zero :: "jsnum \<Rightarrow> bool" where
  "is_zero NaN = False"
| "is_zero PInf = False"
| "is_zero NInf = False"
| "is_zero (Fin v) = (v = 0)"

definition consistent :: "('a \<Rightarrow> 'a \<Rightarrow> jsnum) \<Rightarrow> 'a list \<Rightarrow> bool" where
  "consistent comparefn xs =
     list_all (\<lambda>a. list_all (\<lambda>b. list_all (\<lambda>c.
         comparefn a b \<noteq> NaN
       \<and> is_zero (comparefn a a)
       \<and> (if is_zero (comparefn a b) then is_zero (comparefn b a) else True)
       \<and> (if is_zero (comparefn a b) \<and> is_zero (comparefn b c)
          then is_zero (comparefn a c) else True)
       \<and> (if negative (comparefn a b) \<and> negative (comparefn b c)
          then negative (comparefn a c) else True)
       \<and> (if positive (comparefn a b) \<and> positive (comparefn b c)
          then positive (comparefn a c) else True)) xs) xs) xs"

text \<open>
  For a consistent comparator the language fixes the result: the elements in the order of
  the comparator, elements that compare equal in their original order (the sort is
  stable). \<open>stable_sort\<close> computes it by insertion from the right: \<open>x\<close> is moved behind
  \<open>y\<close> exactly when \<open>comparefn(x, y) > 0\<close>.
\<close>

fun sort_insert :: "('a \<Rightarrow> 'a \<Rightarrow> jsnum) \<Rightarrow> 'a \<Rightarrow> 'a list \<Rightarrow> 'a list" where
  "sort_insert comparefn x [] = [x]"
| "sort_insert comparefn x (y # ys) =
     (if positive (comparefn x y) then y # sort_insert comparefn x ys else x # y # ys)"

definition stable_sort :: "('a \<Rightarrow> 'a \<Rightarrow> jsnum) \<Rightarrow> 'a list \<Rightarrow> 'a list" where
  "stable_sort comparefn xs = foldr (sort_insert comparefn) xs []"

text \<open>
  For a comparator that is not consistent the order is the engine's. The engine sorts
  the array in place, so the result holds the same elements: an order that is not a
  rearrangement of the positions is not an engine's, and leaves the array as it is.
\<close>

definition sort_array :: "runtime \<Rightarrow> ('a \<Rightarrow> 'a \<Rightarrow> jsnum) \<Rightarrow> 'a list \<Rightarrow> 'a list" where
  "sort_array rt comparefn xs =
     (if consistent comparefn xs then stable_sort comparefn xs
      else (let order = engine_order rt (map (\<lambda>a. map (comparefn a) xs) xs)
            in if sort order = [0..<length xs] then map (\<lambda>i. xs ! i) order else xs))"

section \<open>Posts, requests and responses\<close>

text \<open>
  A stored record. The key \<open>id\<close> is always a number; the other four attributes hold whatever
  JSON value a request supplied, and are absent (\<open>None\<close>) on a record that an update
  created without them.
\<close>

record post =
  post_id :: int
  content :: jsval
  timestamp :: jsval
  votes :: jsval
  ttl :: jsval

text \<open>
  The object that a stored record is read back as, with its attributes in the order id,
  content, timestamp, votes, ttl.
\<close>

definition post_json :: "post \<Rightarrow> json" where
  "post_json p =
     JObj ((''id'', JNum (post_id p)) #
           concat (map (\<lambda>(k, v). case v of None \<Rightarrow> [] | Some j \<Rightarrow> [(k, j)])
             [(''content'', content p), (''timestamp'', timestamp p),
              (''votes'', votes p), (''ttl'', ttl p)]))"

text \<open>
  The request: the three properties of the event that the handler reads. The answer to an
  unsupported method echoes the event, shown here with these three properties.
\<close>

record event =
  httpMethod :: string
  queryStringParameters :: "(string \<times> string) list option"
  event_body :: "string option"

definition event_json :: "event \<Rightarrow> json" where
  "event_json ev =
     JObj [(''httpMethod'', JStr (httpMethod ev)),
           (''queryStringParameters'',
              (case queryStringParameters ev of
                 None \<Rightarrow> JNull
               | Some ps \<Rightarrow> JObj (map (\<lambda>(k, v). (k, JStr v)) ps))),
           (''body'', (case event_body ev of None \<Rightarrow> JNull | Some s \<Rightarrow> JStr s))]"

text \<open>
  \<open>JSON_text v\<close> stands for the string that \<open>JSON.stringify\<close> returns for the value \<open>v\<close>.
  \<open>JSON.stringify(undefined)\<close> is not a string but \<open>undefined\<close>.
\<close>

datatype json_text = JSON_text json

definition JSON_stringify :: "jsval \<Rightarrow> json_text option" where
  "JSON_stringify v = map_option JSON_text v"

record response =
  statusCode :: int
  headers :: "(string \<times> string) list option"
  body :: "json_text option"

text \<open>
  \<open>queryStringParameters.k\<close>: the values of query parameters are strings. \<open>query\<close> is the
  same read as a JavaScript value; in \<open>queryStringParameters && queryStringParameters.k\<close>
  a \<open>null\<close> parameter object is as falsy as an absent parameter.
\<close>

definition param :: "event \<Rightarrow> string \<Rightarrow> string option" where
  "param ev k = (case queryStringParameters ev of None \<Rightarrow> None | Some ps \<Rightarrow> map_of ps k)"

definition query :: "event \<Rightarrow> string \<Rightarrow> jsval" where
  "query ev k = map_option JStr (param ev k)"

text \<open>A query parameter inside a template literal.\<close>

definition template :: "string option \<Rightarrow> string" where
  "template v = (case v of None \<Rightarrow> ''undefined'' | Some s \<Rightarrow> s)"

section \<open>The storage collaborator and the clock\<close>

datatype storage_call =
    Scan
  | Get jsnum
  | Put post
  | Update jsnum string "(string \<times> json) list"
  | Delete jsnum

text \<open>
  The world a request runs in: the table in scan order, the storage requests issued so
  far, and the clock, read by \<open>Date.now()\<close> (the \<open>k\<close>-th reading is \<open>clock k\<close>).
\<close>

record world =
  table :: "post list"
  calls :: "storage_call list"
  ticks :: nat
  clock :: "nat \<Rightarrow> int"

text \<open>
  A computation inside an operation takes the world and returns the world it leaves,
  with either its value (\<open>Inr\<close>) or the exception it throws (\<open>Inl\<close>); an awaited promise
  that is rejected throws its error. \<open>bind_io\<close> runs one computation after another and
  stops at the first exception.
\<close>

type_synonym 'a io = "world \<Rightarrow> (exn + 'a) \<times> world"

definition return :: "'a \<Rightarrow> 'a io" where
  "return v = (\<lambda>w. (Inr v, w))"

definition lift :: "exn + 'a \<Rightarrow> 'a io" where
  "lift r = (\<lambda>w. (r, w))"

definition bind_io :: "'a io \<Rightarrow> ('a \<Rightarrow> 'b io) \<Rightarrow> 'b io" where
  "bind_io m f = (\<lambda>w. case m w of (Inl e, w') \<Rightarrow> (Inl e, w') | (Inr v, w') \<Rightarrow> f v w')"

definition Date_now :: "int io" where
  "Date_now = (\<lambda>w. (Inr (clock w (ticks w)), w\<lparr>ticks := Suc (ticks w)\<rparr>))"

definition issue :: "storage_call \<Rightarrow> world \<Rightarrow> world" where
  "issue c w = w\<lparr>calls := calls w @ [c]\<rparr>"

subsection \<open>Storage operations\<close>

text \<open>
  Modelled from the spec: the table store is an external service, described in the section
  on external interfaces as scan (all records), get (one record or empty), put (write),
  update (field-set expression and values, giving the updated record) and delete. The
  key is a number attribute, so a request whose key is not a finite number is refused;
  put and update write the record with the given key, creating it when it is absent.
  The service's own validation of update expressions is not part of this model.
\<close>

definition scan :: "post list io" where
  "scan = (\<lambda>w. (Inr (table w), issue Scan w))"

definition get_item :: "jsnum \<Rightarrow> post option io" where
  "get_item key = (\<lambda>w.
     (case key of
        Fin k \<Rightarrow> Inr (find (\<lambda>p. post_id p = k) (table w))
      | _ \<Rightarrow> Inl (ValidationException ''The key is not a number''),
      issue (Get key) w))"

definition store :: "post \<Rightarrow> post list \<Rightarrow> post list" where
  "store p tbl =
     (if post_id p \<in> set (map post_id tbl)
      then map (\<lambda>q. if post_id q = post_id p then p else q) tbl
      else tbl @ [p])"

definition put_item :: "post \<Rightarrow> unit io" where
  "put_item p = (\<lambda>w. (Inr (), (issue (Put p) w)\<lparr>table := store p (table w)\<rparr>))"

definition delete_item :: "jsnum \<Rightarrow> unit io" where
  "delete_item key = (\<lambda>w.
     (case key of
        Fin k \<Rightarrow> (Inr (), (issue (Delete key) w)\<lparr>table := filter (\<lambda>p. post_id p \<noteq> k) (table w)\<rparr>)
      | _ \<Rightarrow> (Inl (ValidationException ''The key is not a number''), issue (Delete key) w)))"

text \<open>
  The update expression has the form \<open>set a = :x, b = :y\<close>: each clause assigns to the
  attribute on the left the value that the placeholder on the right names.
\<close>

fun split_on :: "char \<Rightarrow> string \<Rightarrow> string list" where
  "split_on c [] = [[]]"
| "split_on c (x # xs) =
     (if x = c then [] # split_on c xs
      else (case split_on c xs of [] \<Rightarrow> [[x]] | y # ys \<Rightarrow> (x # y) # ys))"

definition trim :: "string \<Rightarrow> string" where
  "trim s = rev (dropWhile (\<lambda>c. c = CHR '' '') (rev (dropWhile (\<lambda>c. c = CHR '' '') s)))"

definition parse_assignment :: "string \<Rightarrow> (string \<times> string) option" where
  "parse_assignment s =
     (case split_on (CHR ''='') s of
        [l, r] \<Rightarrow> Some (trim l, trim r)
      | _ \<Rightarrow> None)"

definition set_clauses :: "string \<Rightarrow> (string \<times> string) list option" where
  "set_clauses expr =
     (if take 4 expr = ''set ''
      then those (map parse_assignment (split_on (CHR '','') (drop 4 expr)))
      else None)"

definition set_attribute :: "string \<Rightarrow> json \<Rightarrow> post \<Rightarrow> post option" where
  "set_attribute name v p =
     (if name = ''content'' then Some (p\<lparr>content := Some v\<rparr>)
      else if name = ''timestamp'' then Some (p\<lparr>timestamp := Some v\<rparr>)
      else if name = ''votes'' then Some (p\<lparr>votes := Some v\<rparr>)
      else if name = ''ttl'' then Some (p\<lparr>ttl := Some v\<rparr>)
      else None)"

fun apply_assignments :: "(string \<times> json) list \<Rightarrow> (string \<times> string) list \<Rightarrow> post \<Rightarrow> post option" where
  "apply_assignments vals [] p = Some p"
| "apply_assignments vals ((name, ph) # cs) p =
     (case map_of vals ph of
        None \<Rightarrow> None
      | Some v \<Rightarrow>
          (case set_attribute name v p of
             None \<Rightarrow> None
           | Some p' \<Rightarrow> apply_assignments vals cs p'))"

definition update_item :: "jsnum \<Rightarrow> string \<Rightarrow> (string \<times> json) list \<Rightarrow> post io" where
  "update_item key expr vals = (\<lambda>w.
     (let w' = issue (Update key expr vals) w in
      case key of
        Fin k \<Rightarrow>
          (let old = (case find (\<lambda>p. post_id p = k) (table w) of
                        None \<Rightarrow> \<lparr>post_id = k, content = None, timestamp = None,
                                   votes = None, ttl = None\<rparr>
                      | Some p \<Rightarrow> p)
           in case set_clauses expr of
                None \<Rightarrow> (Inl (ValidationException ''Invalid UpdateExpression''), w')
              | Some cs \<Rightarrow>
                  (case apply_assignments vals cs old of
                     None \<Rightarrow> (Inl (ValidationException ''Invalid UpdateExpression''), w')
                   | Some new \<Rightarrow> (Inr new, w'\<lparr>table := store new (table w)\<rparr>)))
      | _ \<Rightarrow> (Inl (ValidationException ''The key is not a number''), w')))"

section \<open>The handler\<close>

text \<open>
  A promise is settled when the request ends: fulfilled with a value or rejected with an
  error. The body of an \<open>async\<close> function never throws to its caller: an exception in it
  rejects the promise the call returns.
\<close>

datatype 'a promise = Fulfilled 'a | Rejected exn

definition async :: "'a io \<Rightarrow> world \<Rightarrow> 'a promise \<times> world" where
  "async m w = (case m w of (Inl e, w') \<Rightarrow> (Rejected e, w') | (Inr v, w') \<Rightarrow> (Fulfilled v, w'))"

definition compare_timestamp :: "runtime \<Rightarrow> post \<Rightarrow> post \<Rightarrow> jsnum" where
  "compare_timestamp rt a b = num_sub (ToNumber rt (timestamp b)) (ToNumber rt (timestamp a))"

definition DEFAULT_COUNT :: json where
  "DEFAULT_COUNT = JNum 1"

text \<open>\<open>Number(queryStringParameters.count ?? DEFAULT_COUNT)\<close>\<close>

definition count_number :: "runtime \<Rightarrow> event \<Rightarrow> jsnum" where
  "count_number rt ev = ToNumber rt (Some (nullish_coalesce (query ev ''count'') DEFAULT_COUNT))"

text \<open>The scan of the whole table followed by the sort, most recent first.\<close>

definition scan_sorted :: "runtime \<Rightarrow> post list io" where
  "scan_sorted rt = bind_io scan (\<lambda>result. return (sort_array rt (compare_timestamp rt) result))"

text \<open>The four branches of \<open>handleGet\<close>, in the order of the source.\<close>

definition latest_mode :: "runtime \<Rightarrow> event \<Rightarrow> response io" where
  "latest_mode rt ev =
     bind_io (scan_sorted rt) (\<lambda>items.
       return \<lparr>statusCode = 200, headers = None,
               body = JSON_stringify (Some (JArr (map post_json
                 (slice items (Fin 0) (count_number rt ev)))))\<rparr>)"

definition before_mode :: "runtime \<Rightarrow> event \<Rightarrow> response io" where
  "before_mode rt ev =
     bind_io (scan_sorted rt) (\<lambda>items.
       let idIndex = findIndex (\<lambda>item. Fin (post_id item) = ToNumber rt (query ev ''before'')) items
       in if idIndex = - 1 then
            return \<lparr>statusCode = 513, headers = None,
                    body = JSON_stringify (Some (JObj
                      [(''error'', JStr (''No item found by id '' @ template (param ev ''before'')))]))\<rparr>
          else
            (let startIndex = idIndex + 1 in
             return \<lparr>statusCode = 200, headers = None,
                     body = JSON_stringify (Some (JArr (map post_json
                       (slice items (Fin startIndex)
                          (num_add (Fin startIndex) (count_number rt ev))))))\<rparr>))"

definition id_mode :: "runtime \<Rightarrow> event \<Rightarrow> response io" where
  "id_mode rt ev =
     bind_io (get_item (ToNumber rt (query ev ''id''))) (\<lambda>Item.
       return \<lparr>statusCode = 200, headers = None,
               body = JSON_stringify (map_option post_json Item)\<rparr>)"

definition all_mode :: "runtime \<Rightarrow> event \<Rightarrow> response io" where
  "all_mode rt ev =
     bind_io (scan_sorted rt) (\<lambda>items.
       return \<lparr>statusCode = 200, headers = None,
               body = JSON_stringify (Some (JArr (map post_json items)))\<rparr>)"

definition handleGet :: "runtime \<Rightarrow> event \<Rightarrow> world \<Rightarrow> response promise \<times> world" where
  "handleGet rt ev = async
     (if truthy (query ev ''latest'') then latest_mode rt ev
      else if truthy (query ev ''before'') then before_mode rt ev
      else if truthy (query ev ''id'') then id_mode rt ev
      else all_mode rt ev)"

text \<open>\<open>JSON.parse(body)\<close>: a \<open>null\<close> body is converted to the string \<open>null\<close> first.\<close>

definition parse_body :: "runtime \<Rightarrow> event \<Rightarrow> exn + json" where
  "parse_body rt ev = JSON_parse rt (case event_body ev of None \<Rightarrow> ''null'' | Some s \<Rightarrow> s)"

definition handlePut :: "runtime \<Rightarrow> event \<Rightarrow> world \<Rightarrow> response promise \<times> world" where
  "handlePut rt ev = async
     (let RETENTION_PERIOD = 60 * 60 * 24 * 30 in
      bind_io (lift (parse_body rt ev)) (\<lambda>requestJSON.
      bind_io Date_now (\<lambda>now_id.
      bind_io (lift (get_property requestJSON ''content'')) (\<lambda>content_v.
      bind_io (lift (get_property requestJSON ''timestamp'')) (\<lambda>timestamp_v.
      bind_io (case timestamp_v of
                 None \<Rightarrow> bind_io Date_now (\<lambda>t. return (JNum t))
               | Some JNull \<Rightarrow> bind_io Date_now (\<lambda>t. return (JNum t))
               | Some v \<Rightarrow> return v) (\<lambda>timestamp_d.
      bind_io (lift (get_property requestJSON ''votes'')) (\<lambda>votes_v.
      bind_io Date_now (\<lambda>now_ttl.
        let newPost = \<lparr>post_id = now_id,
                       content = Some (nullish_coalesce content_v (JStr [])),
                       timestamp = Some timestamp_d,
                       votes = Some (nullish_coalesce votes_v (JNum 0)),
                       ttl = Some (JNum (now_ttl div 1000 + RETENTION_PERIOD))\<rparr>
        in bind_io (put_item newPost) (\<lambda>_.
           bind_io (get_item (Fin (post_id newPost))) (\<lambda>Item.
             return \<lparr>statusCode = 200, headers = None,
                     body = JSON_stringify (map_option post_json Item)\<rparr>))))))))))"

text \<open>
  One of the four blocks of \<open>handlePatch\<close> that extend the update expression and the
  attribute values when the body owns the field.
\<close>

definition add_field ::
  "json \<Rightarrow> string \<Rightarrow> string \<Rightarrow> string \<times> (string \<times> json) list \<Rightarrow> exn + string \<times> (string \<times> json) list"
where
  "add_field requestJSON field ph acc =
     (case acc of (updateExpression, attributeValues) \<Rightarrow>
        (case hasOwnProperty requestJSON field of
           Inl e \<Rightarrow> Inl e
         | Inr False \<Rightarrow> Inr (updateExpression, attributeValues)
         | Inr True \<Rightarrow>
             (case get_property requestJSON field of
                Inl e \<Rightarrow> Inl e
              | Inr None \<Rightarrow> Inr (updateExpression @ '' '' @ field @ '' = '' @ ph @ '','', attributeValues)
              | Inr (Some v) \<Rightarrow>
                  Inr (updateExpression @ '' '' @ field @ '' = '' @ ph @ '','',
                       attributeValues @ [(ph, v)]))))"

definition handlePatch :: "runtime \<Rightarrow> event \<Rightarrow> world \<Rightarrow> response promise \<times> world" where
  "handlePatch rt ev = async
     (if truthy (query ev ''id'') then
        bind_io (lift (parse_body rt ev)) (\<lambda>requestJSON.
        bind_io (lift (add_field requestJSON ''content'' '':c'' (''set'', []))) (\<lambda>acc1.
        bind_io (lift (add_field requestJSON ''timestamp'' '':t'' acc1)) (\<lambda>acc2.
        bind_io (lift (add_field requestJSON ''votes'' '':v'' acc2)) (\<lambda>acc3.
        bind_io (lift (add_field requestJSON ''ttl'' '':ttl'' acc3)) (\<lambda>acc4.
          case acc4 of (updateExpression, attributeValues) \<Rightarrow>
            if updateExpression = ''set'' then
              return \<lparr>statusCode = 400, headers = None,
                      body = JSON_stringify (Some (JObj [(''error'', JStr ''No fields to update'')]))\<rparr>
            else
              bind_io (update_item (ToNumber rt (query ev ''id''))
                         (butlast updateExpression) attributeValues) (\<lambda>Attributes.
                return \<lparr>statusCode = 200, headers = None,
                        body = JSON_stringify (Some (post_json Attributes))\<rparr>))))))
      else
        return \<lparr>statusCode = 400, headers = None,
                body = JSON_stringify (Some (JObj [(''error'', JStr ''Missing post ID'')]))\<rparr>)"

definition handleDelete :: "runtime \<Rightarrow> event \<Rightarrow> world \<Rightarrow> response promise \<times> world" where
  "handleDelete rt ev = async
     (if truthy (query ev ''id'') then
        bind_io (delete_item (ToNumber rt (query ev ''id''))) (\<lambda>_.
          return \<lparr>statusCode = 200, headers = None,
                  body = JSON_stringify (Some (JObj [(''success'', JBool True)]))\<rparr>)
      else
        return \<lparr>statusCode = 400, headers = None,
                body = JSON_stringify (Some (JObj [(''error'', JStr ''Missing post ID'')]))\<rparr>)"

definition handleOptions :: "runtime \<Rightarrow> event \<Rightarrow> world \<Rightarrow> response promise \<times> world" where
  "handleOptions rt ev = async
     (return \<lparr>statusCode = 200,
              headers = Some [(''Access-Control-Allow-Origin'', ''*''),
                              (''Access-Control-Allow-Methods'', ''GET,PUT,PATCH,DELETE,OPTIONS'')],
              body = JSON_stringify (Some (JObj [(''success'', JBool True)]))\<rparr>)"

text \<open>
  The \<open>try\<close> block of \<open>handler\<close>. Each \<open>case\<close> returns the promise that the call of an
  \<open>async\<close> function yields; the call itself completes normally whatever happens inside
  the function. Nothing in the block throws for an event of this type, so its result is
  always a normal completion (\<open>Inr\<close>).
\<close>

definition try_block :: "runtime \<Rightarrow> event \<Rightarrow> world \<Rightarrow> exn + response promise \<times> world" where
  "try_block rt ev w =
     (let httpMethod = httpMethod ev in
      if httpMethod = ''GET'' then Inr (handleGet rt ev w)
      else if httpMethod = ''PUT'' then Inr (handlePut rt ev w)
      else if httpMethod = ''PATCH'' then Inr (handlePatch rt ev w)
      else if httpMethod = ''DELETE'' then Inr (handleDelete rt ev w)
      else if httpMethod = ''OPTIONS'' then Inr (handleOptions rt ev w)
      else Inr (Fulfilled \<lparr>statusCode = 400, headers = None,
                  body = JSON_stringify (Some (JObj
                    [(''error'', JStr (''Unsupported method '' @ httpMethod)),
                     (''event'', event_json ev)]))\<rparr>, w))"

text \<open>
  \<open>handler\<close> is itself \<open>async\<close>. Returning a promise from it without \<open>await\<close> leaves the
  \<open>try\<close> block at once and settles the handler's promise the way the returned promise
  settles; only an exception thrown while the block itself runs reaches \<open>catch\<close>, which
  answers 512 with the error's own properties (\<open>stack\<close> and \<open>message\<close>).
\<close>

definition handler :: "runtime \<Rightarrow> event \<Rightarrow> world \<Rightarrow> response promise \<times> world" where
  "handler rt ev w =
     (case try_block rt ev w of
        Inr (p, w') \<Rightarrow> (p, w')
      | Inl error \<Rightarrow>
          (Fulfilled \<lparr>statusCode = 512, headers = None,
             body = JSON_stringify (Some (JObj
               [(''stack'', JStr (stack rt error)), (''message'', JStr (message error))]))\<rparr>, w))"

section \<open>The selection of the GET mode, as the specification words it\<close>

datatype mode = Latest | Before | ById | ListAll

definition run_mode :: "runtime \<Rightarrow> event \<Rightarrow> mode \<Rightarrow> response io" where
  "run_mode rt ev m =
     (case m of
        Latest \<Rightarrow> latest_mode rt ev
      | Before \<Rightarrow> before_mode rt ev
      | ById \<Rightarrow> id_mode rt ev
      | ListAll \<Rightarrow> all_mode rt ev)"

text \<open>The mode selected by which query parameter is present.\<close>

definition mode_by_presence :: "event \<Rightarrow> mode" where
  "mode_by_presence ev =
     (if param ev ''latest'' \<noteq> None then Latest
      else if param ev ''before'' \<noteq> None then Before
      else if param ev ''id'' \<noteq> None then ById
      else ListAll)"

text \<open>The mode selected by which query parameter is present with a value that is not empty.\<close>

definition nonempty :: "string option \<Rightarrow> bool" where
  "nonempty v = (case v of None \<Rightarrow> False | Some s \<Rightarrow> s \<noteq> [])"

definition mode_by_value :: "event \<Rightarrow> mode" where
  "mode_by_value ev =
     (if nonempty (param ev ''latest'') then Latest
      else if nonempty (param ev ''before'') then Before
      else if nonempty (param ev ''id'') then ById
      else ListAll)"

section \<open>A runtime and a table for concrete requests\<close>

text \<open>
  \<open>integer_literal\<close> is \<open>Number\<close> on the strings used in the concrete requests below: the
  empty string is 0, an optionally negated run of decimal digits is that integer, and a
  word without digits is \<open>NaN\<close>.
\<close>

definition digit_of :: "char \<Rightarrow> int option" where
  "digit_of c =
     map_of [(CHR ''0'', 0), (CHR ''1'', 1), (CHR ''2'', 2), (CHR ''3'', 3), (CHR ''4'', 4),
             (CHR ''5'', 5), (CHR ''6'', 6), (CHR ''7'', 7), (CHR ''8'', 8), (CHR ''9'', 9)] c"

fun digits_value :: "int \<Rightarrow> string \<Rightarrow> int option" where
  "digits_value acc [] = Some acc"
| "digits_value acc (c # cs) =
     (case digit_of c of None \<Rightarrow> None | Some d \<Rightarrow> digits_value (10 * acc + d) cs)"

definition integer_literal :: "string \<Rightarrow> jsnum" where
  "integer_literal s =
     (case s of
        [] \<Rightarrow> Fin 0
      | c # cs \<Rightarrow>
          if c = CHR ''-'' \<and> cs \<noteq> []
          then (case digits_value 0 cs of None \<Rightarrow> NaN | Some n \<Rightarrow> Fin (- n))
          else (case digits_value 0 s of None \<Rightarrow> NaN | Some n \<Rightarrow> Fin n))"

text \<open>
  \<open>JSON.parse\<close> on the request bodies used below; any other text counts as malformed
  (the wording of the error message depends on the engine).
\<close>

definition parse_known :: "string \<Rightarrow> exn + json" where
  \<open>parse_known s =
     (case map_of
        [(''{}'', JObj []),
         (''null'', JNull),
         (''{"votes":0}'', JObj [(''votes'', JNum 0)]),
         (''{"ttl":5}'', JObj [(''ttl'', JNum 5)]),
         (''{"content":"","votes":0,"ttl":false}'',
            JObj [(''content'', JStr []), (''votes'', JNum 0), (''ttl'', JBool False)])] s of
        None \<Rightarrow> Inl (SyntaxError ''Unexpected token in JSON'')
      | Some v \<Rightarrow> Inr v)\<close>

text \<open>
  The runtime of the concrete requests. The timestamps in the tables below are numbers,
  so the comparator is consistent there and \<open>engine_order\<close> is never consulted; the
  conversion of arrays and objects to strings and the stack traces are not reached either.
\<close>

definition node :: runtime where
  "node = \<lparr>StringToNumber = integer_literal,
           ToString = (\<lambda>v. []),
           JSON_parse = parse_known,
           stack = (\<lambda>e. []),
           engine_order = (\<lambda>results. [0..<length results])\<rparr>"

text \<open>Three posts, scanned in the order B, C, A, on a clock that advances at every reading.\<close>

definition postA :: post where
  "postA = \<lparr>post_id = 1, content = Some (JStr ''a''), timestamp = Some (JNum 300),
            votes = Some (JNum 0), ttl = Some (JNum 2592000)\<rparr>"

definition postB :: post where
  "postB = \<lparr>post_id = 2, content = Some (JStr ''b''), timestamp = Some (JNum 200),
            votes = Some (JNum 0), ttl = Some (JNum 2592000)\<rparr>"

definition postC :: post where
  "postC = \<lparr>post_id = 3, content = Some (JStr ''c''), timestamp = Some (JNum 100),
            votes = Some (JNum 0), ttl = Some (JNum 2592000)\<rparr>"

definition world0 :: world where
  "world0 = \<lparr>table = [postB, postC, postA], calls = [], ticks = 0,
             clock = (\<lambda>k. 1700000000999 + int k)\<rparr>"



definition request :: "string \<Rightarrow> (string \<times> string) list \<Rightarrow> string option \<Rightarrow> event" where
  "request m ps b = \<lparr>httpMethod = m, queryStringParameters = Some ps, event_body = b\<rparr>"

section \<open>Notions the claims use\<close>

text \<open>The timestamp of a post when it is a number, as the data model has it.\<close>

definition timestamp_number :: "post \<Rightarrow> int option" where
  "timestamp_number p = (case timestamp p of Some (JNum t) \<Rightarrow> Some t | _ \<Rightarrow> None)"

text \<open>
  A list of posts is in descending order of timestamp when every timestamp is a number
  and no post is followed by one with a greater timestamp; strictly so when no post is
  followed by one with a greater or equal timestamp.
\<close>

definition descending :: "post list \<Rightarrow> bool" where
  "descending ps =
     (list_all (\<lambda>p. timestamp_number p \<noteq> None) ps \<and>
      sorted_wrt (\<lambda>a b. case (timestamp_number a, timestamp_number b) of
                           (Some s, Some t) \<Rightarrow> t \<le> s
                         | _ \<Rightarrow> False) ps)"

definition strictly_descending :: "post list \<Rightarrow> bool" where
  "strictly_descending ps =
     (list_all (\<lambda>p. timestamp_number p \<noteq> None) ps \<and>
      sorted_wrt (\<lambda>a b. case (timestamp_number a, timestamp_number b) of
                           (Some s, Some t) \<Rightarrow> t < s
                         | _ \<Rightarrow> False) ps)"

text \<open>
  The recognized fields that are own properties of a parsed body, each with the
  placeholder that \<open>handlePatch\<close> gives it.
\<close>

definition owned_fields :: "json \<Rightarrow> (string \<times> string) list" where
  "owned_fields j =
     filter (\<lambda>(field, ph). hasOwnProperty j field = Inr True)
       [(''content'', '':c''), (''timestamp'', '':t''), (''votes'', '':v''), (''ttl'', '':ttl'')]"

text \<open>
  A parsed body on which \<open>requestJSON.hasOwnProperty\<close> is the inherited method: the body is
  not \<open>null\<close> and has no own property named \<open>hasOwnProperty\<close>.
\<close>

definition inherits_hasOwnProperty :: "json \<Rightarrow> bool" where
  "inherits_hasOwnProperty j =
     (case j of
        JNull \<Rightarrow> False
      | JObj kvs \<Rightarrow> ''hasOwnProperty'' \<notin> set (map fst kvs)
      | _ \<Rightarrow> True)"

section \<open>Evaluation rules\<close>

lemmas io_defs = return_def lift_def bind_io_def async_def issue_def Date_now_def

lemmas storage_defs = scan_def get_item_def put_item_def delete_item_def update_item_def store_def

lemmas get_defs = handleGet_def latest_mode_def before_mode_def id_mode_def all_mode_def
  scan_sorted_def count_number_def DEFAULT_COUNT_def query_def param_def template_def
  compare_timestamp_def num_sub_def stable_sort_def slice_def relative_index_def JSON_stringify_def

lemmas fixture_defs = node_def request_def world0_def postA_def postB_def postC_def
  parse_known_def integer_literal_def digit_of_def parse_body_def

section \<open>Facts about the built-ins\<close>

lemma truthy_query: "truthy (query ev k) = nonempty (param ev k)"
  by (simp add: query_def nonempty_def split: option.splits)

lemma findIndex_range:
  "findIndex P xs = - 1 \<or> (0 \<le> findIndex P xs \<and> findIndex P xs < int (length xs))"
  by (induction xs) (auto simp: Let_def)

lemma findIndex_none: "(findIndex P xs = - 1) = (\<forall>x \<in> set xs. \<not> P x)"
proof (induction xs)
  case Nil
  show ?case by simp
next
  case (Cons x xs)
  from findIndex_range[of P xs] Cons show ?case by (auto simp: Let_def)
qed

lemma findIndex_first:
  "findIndex P xs \<noteq> - 1 \<Longrightarrow>
     P (xs ! nat (findIndex P xs)) \<and> (\<forall>j < nat (findIndex P xs). \<not> P (xs ! j))"
proof (induction xs)
  case Nil
  then show ?case by simp
next
  case (Cons x xs)
  show ?case
  proof (cases "P x")
    case True
    then show ?thesis by simp
  next
    case False
    with Cons.prems have ne: "findIndex P xs \<noteq> - 1" by (auto simp: Let_def)
    with findIndex_range[of P xs] have r: "0 \<le> findIndex P xs" by auto
    from False ne have eq: "findIndex P (x # xs) = findIndex P xs + 1" by (simp add: Let_def)
    from r have n: "nat (findIndex P xs + 1) = Suc (nat (findIndex P xs))" by simp
    from Cons.IH[OF ne] False show ?thesis
      unfolding eq n by (auto simp: nth_Cons split: nat.splits)
  qed
qed

lemma mset_sort_insert: "mset (sort_insert c x ys) = add_mset x (mset ys)"
  by (induction ys) auto

lemma mset_stable_sort: "mset (stable_sort c xs) = mset xs"
  by (induction xs) (auto simp: stable_sort_def mset_sort_insert)

lemma mset_rearranged:
  assumes "sort order = [0..<length xs]"
  shows "mset (map (\<lambda>i. xs ! i) order) = mset xs"
proof -
  have "mset order = mset [0..<length xs]"
    using assms by (metis mset_sort)
  then have "mset (map (\<lambda>i. xs ! i) order) = mset (map (\<lambda>i. xs ! i) [0..<length xs])"
    by (metis mset_map)
  then show ?thesis by (simp add: map_nth)
qed

lemma mset_sort_array: "mset (sort_array rt c xs) = mset xs"
proof (cases "consistent c xs")
  case True
  then show ?thesis by (simp add: sort_array_def mset_stable_sort)
next
  case False
  let ?order = "engine_order rt (map (\<lambda>a. map (c a) xs) xs)"
  show ?thesis
  proof (cases "sort ?order = [0..<length xs]")
    case True
    have "sort_array rt c xs = map (\<lambda>i. xs ! i) ?order"
      using True False by (simp add: sort_array_def Let_def)
    with mset_rearranged[OF True] show ?thesis by simp
  next
    case nr: False
    with False show ?thesis by (simp add: sort_array_def Let_def)
  qed
qed

lemma set_sort: "set (sort_array rt c xs) = set xs"
  by (rule mset_eq_setD[OF mset_sort_array])

lemma slice_NaN: "slice xs s NaN = []"
  by (simp add: slice_def relative_index_def)

lemma slice_take_drop:
  "k \<le> length xs \<Longrightarrow> slice xs (Fin (int k)) (Fin (int k + int n)) = take n (drop k xs)"
  by (simp add: slice_def relative_index_def Let_def min_def nat_add_distrib)

lemma num_add_NaN: "num_add x NaN = NaN"
  by (cases x) simp_all

text \<open>The sort puts numeric timestamps in descending order.\<close>

lemma compare_numeric:
  "timestamp_number a = Some s \<Longrightarrow> timestamp_number b = Some t \<Longrightarrow>
     compare_timestamp rt a b = Fin (t - s)"
  by (auto simp: timestamp_number_def compare_timestamp_def num_sub_def
           split: option.splits json.splits)

lemma descending_Cons:
  "descending (y # ys) =
     (\<exists>t. timestamp_number y = Some t \<and>
          (\<forall>z \<in> set ys. \<exists>u. timestamp_number z = Some u \<and> u \<le> t) \<and> descending ys)"
  by (cases "timestamp_number y")
     (auto simp: descending_def list_all_iff split: option.splits)

lemma descending_sort_insert:
  assumes "descending ys" and "timestamp_number x = Some s"
  shows "descending (sort_insert (compare_timestamp rt) x ys)"
  using assms(1)
proof (induction ys)
  case Nil
  with assms(2) show ?case by (simp add: descending_def)
next
  case (Cons y ys)
  from Cons.prems obtain t where t: "timestamp_number y = Some t"
    and rest: "\<forall>z \<in> set ys. \<exists>u. timestamp_number z = Some u \<and> u \<le> t"
    and tail: "descending ys"
    unfolding descending_Cons by blast
  have cmp: "compare_timestamp rt x y = Fin (t - s)"
    using assms(2) t by (rule compare_numeric)
  show ?case
  proof (cases "s < t")
    case True
    have "\<forall>z \<in> set (sort_insert (compare_timestamp rt) x ys).
            \<exists>u. timestamp_number z = Some u \<and> u \<le> t"
      using rest True assms(2)
      by (metis insert_iff less_imp_le mset_sort_insert set_mset_add_mset_insert set_mset_mset)
    with Cons.IH[OF tail] True t cmp show ?thesis
      by (simp add: descending_Cons)
  next
    case False
    with rest have "\<forall>z \<in> set ys. \<exists>u. timestamp_number z = Some u \<and> u \<le> s"
      by fastforce
    with False t cmp assms(2) rest tail show ?thesis
      by (simp add: descending_Cons)
  qed
qed

lemma descending_stable_sort:
  "\<forall>p \<in> set xs. timestamp_number p \<noteq> None \<Longrightarrow> descending (stable_sort (compare_timestamp rt) xs)"
proof (induction xs)
  case Nil
  show ?case by (simp add: stable_sort_def descending_def)
next
  case (Cons x xs)
  then obtain s where "timestamp_number x = Some s" by auto
  moreover from Cons have "descending (stable_sort (compare_timestamp rt) xs)" by simp
  ultimately show ?case
    using descending_sort_insert[of "stable_sort (compare_timestamp rt) xs" x s rt]
    by (simp add: stable_sort_def)
qed

text \<open>On numeric timestamps the comparator of the handler is consistent.\<close>

lemma consistent_numeric:
  assumes "\<forall>p \<in> set xs. timestamp_number p \<noteq> None"
  shows "consistent (compare_timestamp rt) xs"
proof -
  have pointwise: "compare_timestamp rt a b \<noteq> NaN
       \<and> is_zero (compare_timestamp rt a a)
       \<and> (if is_zero (compare_timestamp rt a b) then is_zero (compare_timestamp rt b a) else True)
       \<and> (if is_zero (compare_timestamp rt a b) \<and> is_zero (compare_timestamp rt b c)
          then is_zero (compare_timestamp rt a c) else True)
       \<and> (if negative (compare_timestamp rt a b) \<and> negative (compare_timestamp rt b c)
          then negative (compare_timestamp rt a c) else True)
       \<and> (if positive (compare_timestamp rt a b) \<and> positive (compare_timestamp rt b c)
          then positive (compare_timestamp rt a c) else True)"
    if "a \<in> set xs" "b \<in> set xs" "c \<in> set xs" for a b c
  proof -
    from assms that obtain s t u where
      "timestamp_number a = Some s" "timestamp_number b = Some t" "timestamp_number c = Some u"
      by (metis not_None_eq)
    then show ?thesis by (simp add: compare_numeric)
  qed
  show ?thesis
    unfolding consistent_def list_all_iff
    by (intro ballI) (rule pointwise; assumption)
qed

lemma sort_array_numeric:
  "\<forall>p \<in> set xs. timestamp_number p \<noteq> None \<Longrightarrow>
     sort_array rt (compare_timestamp rt) xs = stable_sort (compare_timestamp rt) xs"
  by (simp add: sort_array_def consistent_numeric)

lemma descending_sort:
  "\<forall>p \<in> set xs. timestamp_number p \<noteq> None \<Longrightarrow> descending (sort_array rt (compare_timestamp rt) xs)"
  by (simp add: sort_array_numeric descending_stable_sort)

lemma descending_distinct_strict:
  "descending ps \<Longrightarrow> distinct (map timestamp_number ps) \<Longrightarrow> strictly_descending ps"
proof (induction ps)
  case Nil
  show ?case by (simp add: strictly_descending_def)
next
  case (Cons p ps)
  from Cons.prems have ne: "\<forall>q \<in> set ps. timestamp_number q \<noteq> timestamp_number p"
    by (metis distinct.simps(2) image_eqI list.simps(9) set_map)
  from Cons.prems have "descending ps" "distinct (map timestamp_number ps)"
    unfolding descending_Cons by auto
  then have "strictly_descending ps" by (rule Cons.IH)
  with Cons.prems(1) ne show ?case
    unfolding descending_Cons
    by (fastforce simp: strictly_descending_def list_all_iff)
qed

lemma timestamp_number_inj:
  "timestamp_number p \<noteq> None \<Longrightarrow> timestamp_number p = timestamp_number q \<Longrightarrow> timestamp p = timestamp q"
  by (auto simp: timestamp_number_def split: option.splits json.splits)

section \<open>Running the GET modes\<close>

lemma handler_GET: "httpMethod ev = ''GET'' \<Longrightarrow> handler rt ev w = handleGet rt ev w"
  by (simp add: handler_def try_block_def)

lemma handleGet_mode: "handleGet rt ev = async (run_mode rt ev (mode_by_value ev))"
  by (simp add: handleGet_def run_mode_def mode_by_value_def truthy_query)

lemma latest_run:
  "latest_mode rt ev w =
     (Inr \<lparr>statusCode = 200, headers = None,
            body = JSON_stringify (Some (JArr (map post_json
              (slice (sort_array rt (compare_timestamp rt) (table w)) (Fin 0) (count_number rt ev)))))\<rparr>,
      issue Scan w)"
  by (simp add: latest_mode_def scan_sorted_def scan_def bind_io_def return_def)

lemma before_run:
  "before_mode rt ev w =
     (let items = sort_array rt (compare_timestamp rt) (table w);
          idIndex = findIndex (\<lambda>item. Fin (post_id item) = ToNumber rt (query ev ''before'')) items
      in if idIndex = - 1 then
           (Inr \<lparr>statusCode = 513, headers = None,
                  body = JSON_stringify (Some (JObj
                    [(''error'', JStr (''No item found by id '' @ template (param ev ''before'')))]))\<rparr>,
            issue Scan w)
         else
           (Inr \<lparr>statusCode = 200, headers = None,
                  body = JSON_stringify (Some (JArr (map post_json
                    (slice items (Fin (idIndex + 1))
                       (num_add (Fin (idIndex + 1)) (count_number rt ev))))))\<rparr>,
            issue Scan w))"
  by (simp add: before_mode_def scan_sorted_def scan_def bind_io_def return_def Let_def)

lemma all_run:
  "all_mode rt ev w =
     (Inr \<lparr>statusCode = 200, headers = None,
            body = JSON_stringify (Some (JArr (map post_json
              (sort_array rt (compare_timestamp rt) (table w)))))\<rparr>,
      issue Scan w)"
  by (simp add: all_mode_def scan_sorted_def scan_def bind_io_def return_def)

lemma id_run:
  "id_mode rt ev w =
     (case ToNumber rt (query ev ''id'') of
        Fin k \<Rightarrow>
          (Inr \<lparr>statusCode = 200, headers = None,
                 body = JSON_stringify (map_option post_json (find (\<lambda>p. post_id p = k) (table w)))\<rparr>,
           issue (Get (Fin k)) w)
      | key \<Rightarrow> (Inl (ValidationException ''The key is not a number''), issue (Get key) w))"
  by (simp add: id_mode_def get_item_def bind_io_def return_def split: jsnum.splits)

lemma count_NaN:
  "param ev ''count'' = Some c \<Longrightarrow> StringToNumber rt c = NaN \<Longrightarrow> count_number rt ev = NaN"
  by (simp add: count_number_def query_def)

text \<open>The three posts of the concrete table, as the handler sorts them.\<close>

lemma sorted_world0:
  "sort_array node (compare_timestamp node) (table world0) = [postA, postB, postC]"
proof -
  have "\<forall>p \<in> set (table world0). timestamp_number p \<noteq> None"
    by (simp add: world0_def postA_def postB_def postC_def timestamp_number_def)
  then have "sort_array node (compare_timestamp node) (table world0)
               = stable_sort (compare_timestamp node) (table world0)"
    by (rule sort_array_numeric)
  also have "\<dots> = [postA, postB, postC]"
    by (simp add: stable_sort_def compare_timestamp_def num_sub_def world0_def
          postA_def postB_def postC_def)
  finally show ?thesis .
qed

section \<open>Running PUT\<close>

lemma handler_PUT: "httpMethod ev = ''PUT'' \<Longrightarrow> handler rt ev w = handlePut rt ev w"
  by (simp add: handler_def try_block_def)

lemma find_store: "find (\<lambda>q. post_id q = post_id p) (store p tbl) = Some p"
proof (cases "post_id p \<in> set (map post_id tbl)")
  case False
  then have "find (\<lambda>q. post_id q = post_id p) (tbl @ [p]) = Some p"
    by (induction tbl) auto
  with False show ?thesis by (simp add: store_def)
next
  case True
  have "\<And>ys. post_id p \<in> set (map post_id ys) \<Longrightarrow>
          find (\<lambda>q. post_id q = post_id p) (map (\<lambda>q. if post_id q = post_id p then p else q) ys) = Some p"
  proof -
    fix ys show "post_id p \<in> set (map post_id ys) \<Longrightarrow>
          find (\<lambda>q. post_id q = post_id p) (map (\<lambda>q. if post_id q = post_id p then p else q) ys) = Some p"
      by (induction ys) auto
  qed
  with True show ?thesis by (simp add: store_def)
qed


text \<open>The record that \<open>handlePut\<close> builds from a parsed body, and the clock readings it takes.\<close>

lemma get_property_not_null:
  "j \<noteq> JNull \<Longrightarrow> \<exists>v. get_property j name = Inr v"
  by (cases j) (simp_all add: get_property_def)

lemma handlePut_run:
  assumes "parse_body rt ev = Inr j" and "j \<noteq> JNull"
    and "get_property j ''content'' = Inr cv"
    and "get_property j ''timestamp'' = Inr tv"
    and "get_property j ''votes'' = Inr vv"
  shows "\<exists>k ts. (k = 1 \<or> k = 2)
           \<and> (k = 2 \<longrightarrow> ts = JNum (clock w (Suc (ticks w))))
           \<and> (k = 1 \<longrightarrow> tv = Some ts)
           \<and> (k = 2) = (tv = None \<or> tv = Some JNull)
           \<and> handlePut rt ev w =
               (let p = \<lparr>post_id = clock w (ticks w),
                         content = Some (nullish_coalesce cv (JStr [])),
                         timestamp = Some ts,
                         votes = Some (nullish_coalesce vv (JNum 0)),
                         ttl = Some (JNum (clock w (ticks w + k) div 1000 + 2592000))\<rparr>
                in (Fulfilled \<lparr>statusCode = 200, headers = None,
                               body = JSON_stringify (Some (post_json p))\<rparr>,
                    w\<lparr>ticks := Suc (ticks w + k),
                      calls := calls w @ [Put p, Get (Fin (post_id p))],
                      table := store p (table w)\<rparr>))"
proof (cases "tv = None \<or> tv = Some JNull")
  case True
  have "handlePut rt ev w =
               (let p = \<lparr>post_id = clock w (ticks w),
                         content = Some (nullish_coalesce cv (JStr [])),
                         timestamp = Some (JNum (clock w (Suc (ticks w)))),
                         votes = Some (nullish_coalesce vv (JNum 0)),
                         ttl = Some (JNum (clock w (ticks w + 2) div 1000 + 2592000))\<rparr>
                in (Fulfilled \<lparr>statusCode = 200, headers = None,
                               body = JSON_stringify (Some (post_json p))\<rparr>,
                    w\<lparr>ticks := Suc (ticks w + 2),
                      calls := calls w @ [Put p, Get (Fin (post_id p))],
                      table := store p (table w)\<rparr>))"
    using True assms
    by (auto simp: handlePut_def io_defs put_item_def get_item_def Let_def find_store
          JSON_stringify_def)
  with True show ?thesis by (intro exI[of _ 2] exI[of _ "JNum (clock w (Suc (ticks w)))"]) simp
next
  case False
  then obtain ts where ts: "tv = Some ts" "ts \<noteq> JNull" by auto
  have "handlePut rt ev w =
               (let p = \<lparr>post_id = clock w (ticks w),
                         content = Some (nullish_coalesce cv (JStr [])),
                         timestamp = Some ts,
                         votes = Some (nullish_coalesce vv (JNum 0)),
                         ttl = Some (JNum (clock w (ticks w + 1) div 1000 + 2592000))\<rparr>
                in (Fulfilled \<lparr>statusCode = 200, headers = None,
                               body = JSON_stringify (Some (post_json p))\<rparr>,
                    w\<lparr>ticks := Suc (ticks w + 1),
                      calls := calls w @ [Put p, Get (Fin (post_id p))],
                      table := store p (table w)\<rparr>))"
    using ts assms
    by (cases ts)
       (auto simp: handlePut_def io_defs put_item_def get_item_def Let_def find_store
          JSON_stringify_def)
  with ts False show ?thesis by (intro exI[of _ 1] exI[of _ ts]) simp
qed

lemma handlePut_rejected:
  "parse_body rt ev = Inl e \<Longrightarrow> handlePut rt ev w = (Rejected e, w)"
  "parse_body rt ev = Inr JNull \<Longrightarrow>
     \<exists>e. handlePut rt ev w = (Rejected e, w\<lparr>ticks := Suc (ticks w)\<rparr>)"
  by (simp_all add: handlePut_def io_defs get_property_def)





lemma handler_DELETE: "httpMethod ev = ''DELETE'' \<Longrightarrow> handler rt ev w = handleDelete rt ev w"
  by (simp add: handler_def try_block_def)

section \<open>Running PATCH\<close>

lemma handler_PATCH: "httpMethod ev = ''PATCH'' \<Longrightarrow> handler rt ev w = handlePatch rt ev w"
  by (simp add: handler_def try_block_def)

lemma digit_char: "(n::nat) < 10 \<Longrightarrow> ''0123456789'' ! n \<in> set ''0123456789''"
  by (rule nth_mem) simp

lemma decimal_digits: "set (decimal n) \<subseteq> set ''0123456789''"
proof (induction n rule: decimal.induct)
  case (1 n)
  show ?case
  proof (cases "n < 10")
    case True
    then show ?thesis using digit_char[OF True] by (subst decimal.simps) simp
  next
    case False
    have "n mod 10 < 10" by simp
    from digit_char[OF this] 1[OF False] False show ?thesis
      by (subst decimal.simps) simp
  qed
qed

lemma field_not_length:
  "f \<in> set [''content'', ''timestamp'', ''votes'', ''ttl''] \<Longrightarrow> f \<noteq> ''length''"
  by auto

lemma field_not_index:
  assumes "f \<in> set [''content'', ''timestamp'', ''votes'', ''ttl'']"
  shows "f \<notin> set (map decimal ks)"
proof -
  from assms consider "f = ''content''" | "f = ''timestamp''" | "f = ''votes''" | "f = ''ttl''"
    by auto
  then have "\<exists>c \<in> set f. c \<notin> set ''0123456789''"
  proof cases
    case 1
    have "CHR ''c'' \<in> set ''content''" "CHR ''c'' \<notin> set ''0123456789''" by simp_all
    with 1 show ?thesis by blast
  next
    case 2
    have "CHR ''t'' \<in> set ''timestamp''" "CHR ''t'' \<notin> set ''0123456789''" by simp_all
    with 2 show ?thesis by blast
  next
    case 3
    have "CHR ''v'' \<in> set ''votes''" "CHR ''v'' \<notin> set ''0123456789''" by simp_all
    with 3 show ?thesis by blast
  next
    case 4
    have "CHR ''t'' \<in> set ''ttl''" "CHR ''t'' \<notin> set ''0123456789''" by simp_all
    with 4 show ?thesis by blast
  qed
  with decimal_digits show ?thesis by fastforce
qed

lemma owned_is_object:
  assumes "f \<in> set [''content'', ''timestamp'', ''votes'', ''ttl'']"
    and "hasOwnProperty j f = Inr True"
  shows "\<exists>v. get_property j f = Inr (Some v)"
proof (cases j)
  case (JObj kvs)
  with assms(2) have "f \<in> fst ` set kvs"
    by (simp add: hasOwnProperty_def split: if_splits)
  then obtain v where "map_of kvs f = Some v"
    by (metis domD dom_map_of_conv_image_fst)
  with JObj show ?thesis by (simp add: get_property_def)
next
  case (JStr s)
  with assms(2) field_not_length[OF assms(1)] field_not_index[OF assms(1), of "[0..<length s]"]
  show ?thesis by (simp add: hasOwnProperty_def)
next
  case (JArr xs)
  with assms(2) field_not_length[OF assms(1)] field_not_index[OF assms(1), of "[0..<length xs]"]
  show ?thesis by (simp add: hasOwnProperty_def)
next
  case JNull
  with assms(2) show ?thesis by (simp add: hasOwnProperty_def)
next
  case (JBool b)
  with assms(2) show ?thesis by (simp add: hasOwnProperty_def)
next
  case (JNum n)
  with assms(2) show ?thesis by (simp add: hasOwnProperty_def)
qed

lemma inherits_total:
  "inherits_hasOwnProperty j \<Longrightarrow> \<exists>h. hasOwnProperty j f = Inr h"
  by (cases j) (auto simp: inherits_hasOwnProperty_def hasOwnProperty_def)

lemma add_field_absent:
  "hasOwnProperty j f = Inr False \<Longrightarrow> add_field j f ph acc = Inr acc"
  by (cases acc) (simp add: add_field_def)

lemma calls_update_item:
  "calls (snd (update_item key expr vals w)) = calls w @ [Update key expr vals]"
  by (simp add: update_item_def issue_def Let_def split: jsnum.splits option.splits)

lemma calls_async: "calls (snd (async m w)) = calls (snd (m w))"
  by (simp add: async_def split: prod.splits sum.splits)

section \<open>Errors raised by an operation\<close>

text \<open>
  C1 (the code departs from the claim). The claim: whenever the dispatched operation
  raises an error, the handler answers 512 with the serialized error. A PUT request whose
  body is the malformed text \<open>{\<close> makes \<open>JSON.parse\<close> throw inside \<open>handlePut\<close>; a GET
  request for the id \<open>abc\<close> makes the storage layer refuse the key. In both cases the
  promise of \<open>handler\<close> is rejected with that error: no response is produced, and so no
  response with status 512.
\<close>

theorem handler_passes_rejection_on:
  "fst (handler node (request ''PUT'' [] (Some ''{'')) world0)
     = Rejected (SyntaxError ''Unexpected token in JSON'')
   \<and> fst (handler node (request ''GET'' [(''id'', ''abc'')] None) world0)
     = Rejected (ValidationException ''The key is not a number'')"
  by (simp add: handler_def try_block_def handlePut_def io_defs storage_defs get_defs fixture_defs)

section \<open>GET: which mode runs\<close>

text \<open>
  C8 (corrected). The claim selects the mode by which query parameter is present. The
  handler tests the value of the parameter, and an empty string counts as absent: with
  \<open>latest\<close> present but empty and \<open>before\<close> naming post A, the handler does not run the
  latest mode, which would answer with the most recent post A, but the before mode, and
  answers with post B.
\<close>

theorem presence_does_not_select_the_mode:
  "fst (handler node (request ''GET'' [(''latest'', []), (''before'', ''1'')] None) world0)
     = Fulfilled \<lparr>statusCode = 200, headers = None,
                  body = JSON_stringify (Some (JArr [post_json postB]))\<rparr>
   \<and> fst (async (run_mode node (request ''GET'' [(''latest'', []), (''before'', ''1'')] None)
                   (mode_by_presence (request ''GET'' [(''latest'', []), (''before'', ''1'')] None)))
              world0)
     = Fulfilled \<lparr>statusCode = 200, headers = None,
                  body = JSON_stringify (Some (JArr [post_json postA]))\<rparr>
   \<and> post_json postA \<noteq> post_json postB"
proof -
  let ?ev = "request ''GET'' [(''latest'', []), (''before'', ''1'')] None"
  have m: "httpMethod ?ev = ''GET''" by (simp add: request_def)
  have v: "mode_by_value ?ev = Before"
    by (simp add: mode_by_value_def nonempty_def param_def request_def)
  have p: "mode_by_presence ?ev = Latest"
    by (simp add: mode_by_presence_def param_def request_def)
  have key: "ToNumber node (query ?ev ''before'') = Fin 1"
    by (simp add: query_def param_def request_def node_def integer_literal_def digit_of_def)
  have cnt: "count_number node ?ev = Fin 1"
    by (simp add: count_number_def query_def param_def request_def DEFAULT_COUNT_def)
  have ids: "post_id postA = 1" "post_id postB = 2" "post_id postC = 3"
    by (simp_all add: postA_def postB_def postC_def)
  have "fst (handler node ?ev world0)
     = Fulfilled \<lparr>statusCode = 200, headers = None,
                  body = JSON_stringify (Some (JArr [post_json postB]))\<rparr>"
    by (simp add: handler_GET[OF m] handleGet_mode v run_mode_def async_def before_run
          sorted_world0 key cnt ids Let_def slice_def relative_index_def)
  moreover have "fst (async (run_mode node ?ev (mode_by_presence ?ev)) world0)
     = Fulfilled \<lparr>statusCode = 200, headers = None,
                  body = JSON_stringify (Some (JArr [post_json postA]))\<rparr>"
    by (simp add: p run_mode_def async_def latest_run sorted_world0 cnt
          slice_def relative_index_def)
  moreover have "post_json postA \<noteq> post_json postB"
    by (simp add: post_json_def postA_def postB_def)
  ultimately show ?thesis by simp
qed

text \<open>
  C8 as amended: for every GET request exactly one of the four modes runs, the first in
  the order latest, before, id whose query parameter is present with a value that is not
  the empty string, and the list-all mode when there is none.
\<close>

theorem mode_selected_by_nonempty_value:
  "httpMethod ev = ''GET'' \<Longrightarrow> handler rt ev w = async (run_mode rt ev (mode_by_value ev)) w"
  by (simp add: handler_GET handleGet_mode)

theorem mode_selected_by_nonempty_value_witness:
  "handler node (request ''GET'' [(''latest'', []), (''before'', ''1'')] None) world0
     = async (before_mode node (request ''GET'' [(''latest'', []), (''before'', ''1'')] None)) world0"
  using mode_selected_by_nonempty_value
    [of "request ''GET'' [(''latest'', []), (''before'', ''1'')] None" node world0]
  by (simp add: request_def mode_by_value_def run_mode_def param_def nonempty_def)

section \<open>GET: a count that is not a number\<close>

text \<open>
  C10. A GET request in latest mode, or in before mode when a record has the given id,
  whose \<open>count\<close> parameter is present and converts to \<open>NaN\<close> is answered with status 200
  and the empty list: the default count 1 is not used.
\<close>

theorem count_not_a_number_gives_empty_list:
  assumes "httpMethod ev = ''GET''"
    and "param ev ''count'' = Some c" and "StringToNumber rt c = NaN"
    and "nonempty (param ev ''latest'') \<or>
         (nonempty (param ev ''before'') \<and>
          (\<exists>p \<in> set (table w). Fin (post_id p) = ToNumber rt (query ev ''before'')))"
  shows "fst (handler rt ev w) =
           Fulfilled \<lparr>statusCode = 200, headers = None, body = JSON_stringify (Some (JArr []))\<rparr>"
proof -
  have cn: "count_number rt ev = NaN" using assms(2,3) by (rule count_NaN)
  show ?thesis
  proof (cases "nonempty (param ev ''latest'')")
    case True
    then show ?thesis
      by (simp add: handler_GET[OF assms(1)] handleGet_def truthy_query async_def latest_run cn slice_NaN)
  next
    case False
    with assms(4) have b: "nonempty (param ev ''before'')"
      and f: "\<exists>p \<in> set (table w). Fin (post_id p) = ToNumber rt (query ev ''before'')" by auto
    from f have "findIndex (\<lambda>item. Fin (post_id item) = ToNumber rt (query ev ''before''))
                   (sort_array rt (compare_timestamp rt) (table w)) \<noteq> - 1"
      by (simp add: findIndex_none set_sort)
    with False b show ?thesis
      by (simp add: handler_GET[OF assms(1)] handleGet_def truthy_query async_def before_run
            cn num_add_NaN slice_NaN Let_def)
  qed
qed

theorem count_not_a_number_gives_empty_list_witness:
  "fst (handler node (request ''GET'' [(''before'', ''1''), (''count'', ''abc'')] None) world0) =
     Fulfilled \<lparr>statusCode = 200, headers = None, body = JSON_stringify (Some (JArr []))\<rparr>"
  using count_not_a_number_gives_empty_list
    [of "request ''GET'' [(''before'', ''1''), (''count'', ''abc'')] None" "''abc''" node world0]
  by (simp add: request_def param_def query_def nonempty_def fixture_defs)

section \<open>GET: listing all posts\<close>

text \<open>
  C7. When every stored post has a number as timestamp and the timestamps are pairwise
  distinct, a GET request with no query parameters is answered with status 200 and all
  the stored posts, each once, in strictly descending order of timestamp.
\<close>

theorem list_all_strictly_descending:
  assumes "httpMethod ev = ''GET''"
    and "queryStringParameters ev = None \<or> queryStringParameters ev = Some []"
    and "\<forall>p \<in> set (table w). timestamp_number p \<noteq> None"
    and "distinct (map timestamp (table w))"
  shows "\<exists>items.
           fst (handler rt ev w) =
             Fulfilled \<lparr>statusCode = 200, headers = None,
                        body = JSON_stringify (Some (JArr (map post_json items)))\<rparr>
           \<and> mset items = mset (table w)
           \<and> strictly_descending items"
proof -
  let ?items = "sort_array rt (compare_timestamp rt) (table w)"
  from assms(2) have none: "\<And>k. param ev k = None"
    by (auto simp: param_def)
  have resp: "fst (handler rt ev w) =
      Fulfilled \<lparr>statusCode = 200, headers = None,
                 body = JSON_stringify (Some (JArr (map post_json ?items)))\<rparr>"
    by (simp add: handler_GET[OF assms(1)] handleGet_def truthy_query none nonempty_def
          async_def all_run)
  have perm: "mset ?items = mset (table w)" by (rule mset_sort_array)
  have desc: "descending ?items" using assms(3) by (rule descending_sort)
  have "inj_on timestamp_number (set (table w))"
  proof (rule inj_onI)
    fix p q
    assume p: "p \<in> set (table w)" and q: "q \<in> set (table w)"
      and eq: "timestamp_number p = timestamp_number q"
    from assms(3) p have "timestamp_number p \<noteq> None" by simp
    then have "timestamp p = timestamp q" using eq by (rule timestamp_number_inj)
    moreover from assms(4) have "inj_on timestamp (set (table w))" by (simp add: distinct_map)
    ultimately show "p = q" using p q by (simp add: inj_on_def)
  qed
  moreover from assms(4) have "distinct (table w)" by (simp add: distinct_map)
  ultimately have "distinct (map timestamp_number (table w))" by (simp add: distinct_map)
  moreover have "mset (map timestamp_number ?items) = mset (map timestamp_number (table w))"
    by (simp add: perm)
  ultimately have "distinct (map timestamp_number ?items)"
    using mset_eq_imp_distinct_iff by blast
  with desc have "strictly_descending ?items" by (rule descending_distinct_strict)
  with resp perm show ?thesis by blast
qed

theorem list_all_strictly_descending_witness:
  "\<exists>items.
     fst (handler node (request ''GET'' [] None) world0) =
       Fulfilled \<lparr>statusCode = 200, headers = None,
                  body = JSON_stringify (Some (JArr (map post_json items)))\<rparr>
     \<and> mset items = mset [postB, postC, postA]
     \<and> strictly_descending items"
  using list_all_strictly_descending [of "request ''GET'' [] None" world0 node]
  by (simp add: request_def world0_def postA_def postB_def postC_def timestamp_number_def)

section \<open>GET: the page after a post\<close>

text \<open>
  C2 (corrected). The claim covers every GET request that has a \<open>before\<close> parameter. The
  handler tests the value of the parameter, and an empty string counts as absent: the
  request \<open>before=\<close> on the posts A, B, C (ids 1, 2, 3) is not answered with status 513,
  although the empty string converts to 0 and no post has the id 0, but with status 200
  and the list of all posts.
\<close>

theorem empty_before_lists_all:
  "fst (handler node (request ''GET'' [(''before'', [])] None) world0)
     = Fulfilled \<lparr>statusCode = 200, headers = None,
                  body = JSON_stringify (Some (JArr
                    [post_json postA, post_json postB, post_json postC]))\<rparr>
   \<and> StringToNumber node [] = Fin 0
   \<and> map post_id (table world0) = [2, 3, 1]"
proof -
  let ?ev = "request ''GET'' [(''before'', [])] None"
  have m: "httpMethod ?ev = ''GET''" by (simp add: request_def)
  have v: "mode_by_value ?ev = ListAll"
    by (simp add: mode_by_value_def nonempty_def param_def request_def)
  have "fst (handler node ?ev world0)
     = Fulfilled \<lparr>statusCode = 200, headers = None,
                  body = JSON_stringify (Some (JArr
                    [post_json postA, post_json postB, post_json postC]))\<rparr>"
    by (simp add: handler_GET[OF m] handleGet_mode v run_mode_def async_def all_run sorted_world0)
  moreover have "StringToNumber node [] = Fin 0"
    by (simp add: node_def integer_literal_def)
  moreover have "map post_id (table world0) = [2, 3, 1]"
    by (simp add: world0_def postA_def postB_def postC_def)
  ultimately show ?thesis by simp
qed

text \<open>
  C2 as amended: for every GET request whose \<open>before\<close> parameter is not empty, that has no
  \<open>latest\<close> parameter with a value that is not empty (which would take precedence), and
  whose \<open>count\<close> parameter is absent, for the count \<open>n = 1\<close>, or converts to a non-negative
  integer \<open>n\<close>: the records are sorted by the handler's sort, which keeps every record
  and puts numeric timestamps in descending order; if no record has an id equal to the
  number the \<open>before\<close> parameter converts to, the answer is status 513 with an error
  naming the parameter; otherwise the answer is status 200 with the \<open>n\<close> records that
  follow the first record with that id in the sorted list, or fewer when the list ends
  sooner.
\<close>

theorem before_mode_page:
  assumes "httpMethod ev = ''GET''"
    and "\<not> nonempty (param ev ''latest'')"
    and "param ev ''before'' = Some b" and "b \<noteq> []"
    and "case param ev ''count'' of
           None \<Rightarrow> n = 1
         | Some c \<Rightarrow> StringToNumber rt c = Fin (int n)"
  shows
    "(let items = sort_array rt (compare_timestamp rt) (table w) in
        mset items = mset (table w)
      \<and> ((\<forall>p \<in> set (table w). timestamp_number p \<noteq> None) \<longrightarrow> descending items)
      \<and> ((\<forall>p \<in> set (table w). Fin (post_id p) \<noteq> StringToNumber rt b) \<longrightarrow>
           fst (handler rt ev w) =
             Fulfilled \<lparr>statusCode = 513, headers = None,
                        body = JSON_stringify (Some (JObj
                          [(''error'', JStr (''No item found by id '' @ b))]))\<rparr>)
      \<and> ((\<exists>p \<in> set (table w). Fin (post_id p) = StringToNumber rt b) \<longrightarrow>
           (\<exists>i < length items.
              Fin (post_id (items ! i)) = StringToNumber rt b
            \<and> (\<forall>j < i. Fin (post_id (items ! j)) \<noteq> StringToNumber rt b)
            \<and> fst (handler rt ev w) =
                Fulfilled \<lparr>statusCode = 200, headers = None,
                           body = JSON_stringify (Some (JArr (map post_json
                             (take n (drop (Suc i) items)))))\<rparr>)))"
proof -
  let ?items = "sort_array rt (compare_timestamp rt) (table w)"
  let ?P = "\<lambda>item. Fin (post_id item) = ToNumber rt (query ev ''before'')"
  let ?i = "findIndex ?P ?items"
  have key: "ToNumber rt (query ev ''before'') = StringToNumber rt b"
    using assms(3) by (simp add: query_def)
  have cnt: "count_number rt ev = Fin (int n)"
    using assms(5)
    by (cases "param ev ''count''") (simp_all add: count_number_def query_def DEFAULT_COUNT_def)
  have perm: "mset ?items = mset (table w)" by (rule mset_sort_array)
  have desc: "(\<forall>p \<in> set (table w). timestamp_number p \<noteq> None) \<longrightarrow> descending ?items"
    using descending_sort by blast
  have miss: "fst (handler rt ev w) =
             Fulfilled \<lparr>statusCode = 513, headers = None,
                        body = JSON_stringify (Some (JObj
                          [(''error'', JStr (''No item found by id '' @ b))]))\<rparr>"
    if "\<forall>p \<in> set (table w). Fin (post_id p) \<noteq> StringToNumber rt b"
  proof -
    from that have "?i = - 1" by (simp add: findIndex_none set_sort key)
    then show ?thesis
      using assms(2,3,4)
      by (simp add: handler_GET[OF assms(1)] handleGet_def truthy_query nonempty_def async_def
            before_run Let_def template_def)
  qed
  have hit: "\<exists>i < length ?items.
              Fin (post_id (?items ! i)) = StringToNumber rt b
            \<and> (\<forall>j < i. Fin (post_id (?items ! j)) \<noteq> StringToNumber rt b)
            \<and> fst (handler rt ev w) =
                Fulfilled \<lparr>statusCode = 200, headers = None,
                           body = JSON_stringify (Some (JArr (map post_json
                             (take n (drop (Suc i) ?items)))))\<rparr>"
    if "\<exists>p \<in> set (table w). Fin (post_id p) = StringToNumber rt b"
  proof -
    from that have ne: "?i \<noteq> - 1" by (simp add: findIndex_none set_sort key)
    with findIndex_range[of ?P ?items] have r: "0 \<le> ?i" "?i < int (length ?items)" by auto
    define i where "i = nat ?i"
    from r have i: "?i = int i" "i < length ?items" by (simp_all add: i_def)
    from findIndex_first[OF ne]
    have first: "Fin (post_id (?items ! i)) = StringToNumber rt b"
      "\<forall>j < i. Fin (post_id (?items ! j)) \<noteq> StringToNumber rt b"
      by (simp_all add: i_def key)
    have sl: "slice ?items (Fin (?i + 1)) (num_add (Fin (?i + 1)) (count_number rt ev))
              = take n (drop (Suc i) ?items)"
      using slice_take_drop[of "Suc i" ?items n] i by (simp add: cnt add.commute)
    have "fst (handler rt ev w) =
                Fulfilled \<lparr>statusCode = 200, headers = None,
                           body = JSON_stringify (Some (JArr (map post_json
                             (take n (drop (Suc i) ?items)))))\<rparr>"
      using assms(2,3,4) ne
      by (simp add: handler_GET[OF assms(1)] handleGet_def truthy_query nonempty_def async_def
            before_run Let_def sl)
    with i(2) first show ?thesis by blast
  qed
  from perm desc miss hit show ?thesis
    unfolding Let_def by blast
qed

theorem before_mode_page_witness:
  "fst (handler node (request ''GET'' [(''before'', ''1''), (''count'', ''2'')] None) world0)
     = Fulfilled \<lparr>statusCode = 200, headers = None,
                  body = JSON_stringify (Some (JArr [post_json postB, post_json postC]))\<rparr>"
proof -
  let ?ev = "request ''GET'' [(''before'', ''1''), (''count'', ''2'')] None"
  let ?items = "sort_array node (compare_timestamp node) (table world0)"
  have items: "?items = [postA, postB, postC]"
    by (rule sorted_world0)
  have one: "StringToNumber node ''1'' = Fin 1"
    by (simp add: fixture_defs)
  have found: "\<exists>p \<in> set (table world0). Fin (post_id p) = StringToNumber node ''1''"
    by (simp add: one) (simp add: fixture_defs)
  have "\<exists>i < length ?items.
          Fin (post_id (?items ! i)) = StringToNumber node ''1''
        \<and> (\<forall>j < i. Fin (post_id (?items ! j)) \<noteq> StringToNumber node ''1'')
        \<and> fst (handler node ?ev world0) =
            Fulfilled \<lparr>statusCode = 200, headers = None,
                       body = JSON_stringify (Some (JArr (map post_json
                         (take 2 (drop (Suc i) ?items)))))\<rparr>"
  proof -
    have a1: "httpMethod ?ev = ''GET''" by (simp add: request_def)
    have a2: "\<not> nonempty (param ?ev ''latest'')" by (simp add: request_def param_def nonempty_def)
    have a3: "param ?ev ''before'' = Some ''1''" by (simp add: request_def param_def)
    have a4: "''1'' \<noteq> []" by simp
    have a5: "case param ?ev ''count'' of
                None \<Rightarrow> (2::nat) = 1
              | Some c \<Rightarrow> StringToNumber node c = Fin (int 2)"
      by (simp add: param_def request_def fixture_defs)
    from before_mode_page [OF a1 a2 a3 a4 a5, of world0] found show ?thesis
      unfolding Let_def by blast
  qed
  then obtain i where i: "i < length ?items" "Fin (post_id (?items ! i)) = StringToNumber node ''1''"
    and resp: "fst (handler node ?ev world0) =
            Fulfilled \<lparr>statusCode = 200, headers = None,
                       body = JSON_stringify (Some (JArr (map post_json
                         (take 2 (drop (Suc i) ?items)))))\<rparr>"
    by blast
  from i have "i = 0"
    unfolding items one
    by (cases i) (auto simp: postA_def postB_def postC_def nth_Cons split: nat.splits)
  with resp show ?thesis by (simp add: items)
qed

section \<open>PUT: the record created\<close>

text \<open>
  C5 (corrected). The claim gives the id, the timestamp and the ttl of the record created
  from the body \<open>{}\<close> as one creation instant. \<open>handlePut\<close> reads the clock three times,
  once for each field. On a clock that shows 1700000000999 ms at the first reading and
  one millisecond more at each later reading, the record has the id 1700000000999, the
  timestamp 1700000001000 and the ttl 1702592001, which is one second more than the id
  in seconds plus 2592000.
\<close>

theorem put_fields_from_different_readings:
  "fst (handler node (request ''PUT'' [] (Some ''{}'')) world0)
     = Fulfilled \<lparr>statusCode = 200, headers = None,
         body = JSON_stringify (Some (JObj
           [(''id'', JNum 1700000000999), (''content'', JStr []),
            (''timestamp'', JNum 1700000001000), (''votes'', JNum 0),
            (''ttl'', JNum 1702592001)]))\<rparr>
   \<and> (1700000001000 :: int) \<noteq> 1700000000999
   \<and> (1702592001 :: int) \<noteq> 1700000000999 div 1000 + 2592000"
  by (simp add: handler_def try_block_def handlePut_def io_defs storage_defs fixture_defs
        get_property_def post_json_def JSON_stringify_def Let_def)

text \<open>
  C5 as amended: for every PUT request with body \<open>{}\<close>, the handler reads the clock three
  times and persists a record with id equal to the first reading (in milliseconds),
  content the empty string, timestamp equal to the second reading, votes 0 and ttl equal
  to the third reading in whole seconds plus 2,592,000; it then fetches the record with
  that id from storage and returns the record read with status 200.
\<close>

theorem put_empty_body:
  assumes "httpMethod ev = ''PUT''"
    and "event_body ev = Some ''{}''"
    and "JSON_parse rt ''{}'' = Inr (JObj [])"
  shows
    "(let p = \<lparr>post_id = clock w (ticks w),
               content = Some (JStr []),
               timestamp = Some (JNum (clock w (ticks w + 1))),
               votes = Some (JNum 0),
               ttl = Some (JNum (clock w (ticks w + 2) div 1000 + 2592000))\<rparr>;
          w' = snd (handler rt ev w)
      in calls w' = calls w @ [Put p, Get (Fin (post_id p))]
       \<and> table w' = store p (table w)
       \<and> find (\<lambda>q. post_id q = post_id p) (table w') = Some p
       \<and> ticks w' = ticks w + 3
       \<and> fst (handler rt ev w) =
           Fulfilled \<lparr>statusCode = 200, headers = None,
                      body = JSON_stringify
                        (map_option post_json (find (\<lambda>q. post_id q = post_id p) (table w')))\<rparr>)"
proof -
  have pb: "parse_body rt ev = Inr (JObj [])"
    using assms(2,3) by (simp add: parse_body_def)
  have gp: "\<And>name. get_property (JObj []) name = Inr None"
    by (simp add: get_property_def)
  from handlePut_run[OF pb _ gp gp gp, of w]
  obtain k ts where k: "(k = 2) = (None = (None :: jsval) \<or> (None :: jsval) = Some JNull)"
    and ts: "k = 2 \<longrightarrow> ts = JNum (clock w (Suc (ticks w)))"
    and run: "handlePut rt ev w =
               (let p = \<lparr>post_id = clock w (ticks w),
                         content = Some (nullish_coalesce None (JStr [])),
                         timestamp = Some ts,
                         votes = Some (nullish_coalesce None (JNum 0)),
                         ttl = Some (JNum (clock w (ticks w + k) div 1000 + 2592000))\<rparr>
                in (Fulfilled \<lparr>statusCode = 200, headers = None,
                               body = JSON_stringify (Some (post_json p))\<rparr>,
                    w\<lparr>ticks := Suc (ticks w + k),
                      calls := calls w @ [Put p, Get (Fin (post_id p))],
                      table := store p (table w)\<rparr>))"
    by auto
  from k have k2: "k = 2" by simp
  with ts have ts': "ts = JNum (clock w (Suc (ticks w)))" by simp
  let ?p = "\<lparr>post_id = clock w (ticks w), content = Some (JStr []),
             timestamp = Some (JNum (clock w (Suc (ticks w)))), votes = Some (JNum 0),
             ttl = Some (JNum (clock w (Suc (Suc (ticks w))) div 1000 + 2592000))\<rparr>"
  have fs: "find (\<lambda>q. post_id q = clock w (ticks w)) (store ?p (table w)) = Some ?p"
    using find_store[of ?p "table w"] by simp
  show ?thesis
    unfolding handler_PUT[OF assms(1)] run k2 ts'
    by (simp add: Let_def fs)
qed

theorem put_empty_body_witness:
  "(let p = \<lparr>post_id = 1700000000999,
             content = Some (JStr []),
             timestamp = Some (JNum 1700000001000),
             votes = Some (JNum 0),
             ttl = Some (JNum 1702592001)\<rparr>;
        w' = snd (handler node (request ''PUT'' [] (Some ''{}'')) world0)
    in calls w' = [Put p, Get (Fin 1700000000999)]
     \<and> table w' = [postB, postC, postA, p]
     \<and> fst (handler node (request ''PUT'' [] (Some ''{}'')) world0) =
         Fulfilled \<lparr>statusCode = 200, headers = None,
                    body = JSON_stringify (Some (post_json p))\<rparr>)"
  using put_empty_body [of "request ''PUT'' [] (Some ''{}'')" node world0]
  by (simp add: Let_def request_def node_def parse_known_def)
     (simp add: world0_def store_def postA_def postB_def postC_def)

section \<open>PATCH: nothing to update\<close>

text \<open>
  C4 (corrected). The claim covers every parsed body that has none of the four fields as
  an own property. The body \<open>null\<close> has no properties at all, but calling
  \<open>requestJSON.hasOwnProperty\<close> on it throws: the request is not answered with status 400,
  its promise is rejected with a TypeError.
\<close>

theorem patch_null_body_is_rejected:
  "fst (handler node (request ''PATCH'' [(''id'', ''2'')] (Some ''null'')) world0)
     = Rejected (TypeError ''Cannot read properties of null (reading 'hasOwnProperty')'')"
proof -
  let ?ev = "request ''PATCH'' [(''id'', ''2'')] (Some ''null'')"
  have m: "httpMethod ?ev = ''PATCH''" by (simp add: request_def)
  have pb: "parse_body node ?ev = Inr JNull" by (simp add: fixture_defs)
  have tq: "truthy (query ?ev ''id'')" by (simp add: query_def param_def request_def)
  show ?thesis
    by (simp add: handler_PATCH[OF m] handlePatch_def io_defs pb tq add_field_def
          hasOwnProperty_def)
qed

text \<open>
  C4 as amended: for every PATCH request whose \<open>id\<close> parameter is not empty and whose body
  parses to a value on which the ownership test answers false for each of \<open>content\<close>,
  \<open>timestamp\<close>, \<open>votes\<close> and \<open>ttl\<close> (so the body is not \<open>null\<close> and does not shadow
  \<open>hasOwnProperty\<close>), the handler returns status 400 with the error
  \<open>No fields to update\<close>, issues no storage request and leaves the table unchanged.
\<close>

theorem patch_without_fields:
  assumes "httpMethod ev = ''PATCH''"
    and "nonempty (param ev ''id'')"
    and "parse_body rt ev = Inr j"
    and "hasOwnProperty j ''content'' = Inr False"
    and "hasOwnProperty j ''timestamp'' = Inr False"
    and "hasOwnProperty j ''votes'' = Inr False"
    and "hasOwnProperty j ''ttl'' = Inr False"
  shows "handler rt ev w =
           (Fulfilled \<lparr>statusCode = 400, headers = None,
                       body = JSON_stringify (Some (JObj [(''error'', JStr ''No fields to update'')]))\<rparr>,
            w)"
  using assms(2,3)
  by (simp add: handler_PATCH[OF assms(1)] handlePatch_def truthy_query io_defs
        add_field_absent[OF assms(4)] add_field_absent[OF assms(5)]
        add_field_absent[OF assms(6)] add_field_absent[OF assms(7)])

theorem patch_without_fields_witness:
  "handler node (request ''PATCH'' [(''id'', ''2'')] (Some ''{}'')) world0 =
     (Fulfilled \<lparr>statusCode = 400, headers = None,
                 body = JSON_stringify (Some (JObj [(''error'', JStr ''No fields to update'')]))\<rparr>,
      world0)"
  using patch_without_fields
    [of "request ''PATCH'' [(''id'', ''2'')] (Some ''{}'')" node "JObj []" world0]
  by (simp add: request_def param_def nonempty_def node_def parse_body_def parse_known_def
        hasOwnProperty_def)

section \<open>PATCH: the fields of the update\<close>

lemma owned_fields_eq:
  assumes "hasOwnProperty j ''content'' = Inr hc" and "hasOwnProperty j ''timestamp'' = Inr ht"
    and "hasOwnProperty j ''votes'' = Inr hv" and "hasOwnProperty j ''ttl'' = Inr hl"
  shows "owned_fields j =
           (if hc then [(''content'', '':c'')] else []) @ (if ht then [(''timestamp'', '':t'')] else [])
         @ (if hv then [(''votes'', '':v'')] else []) @ (if hl then [(''ttl'', '':ttl'')] else [])"
  by (simp add: owned_fields_def assms)

lemma patch_accumulate:
  assumes "hasOwnProperty j ''content'' = Inr hc" and "hasOwnProperty j ''timestamp'' = Inr ht"
    and "hasOwnProperty j ''votes'' = Inr hv" and "hasOwnProperty j ''ttl'' = Inr hl"
    and "hc \<longrightarrow> get_property j ''content'' = Inr (Some vc)"
    and "ht \<longrightarrow> get_property j ''timestamp'' = Inr (Some vt)"
    and "hv \<longrightarrow> get_property j ''votes'' = Inr (Some vv)"
    and "hl \<longrightarrow> get_property j ''ttl'' = Inr (Some vl)"
  shows "add_field j ''content'' '':c'' (''set'', []) =
           Inr (''set'' @ (if hc then '' content = :c,'' else []),
                (if hc then [('':c'', vc)] else []))"
    and "add_field j ''timestamp'' '':t'' (e1, vs1) =
           Inr (e1 @ (if ht then '' timestamp = :t,'' else []),
                vs1 @ (if ht then [('':t'', vt)] else []))"
    and "add_field j ''votes'' '':v'' (e2, vs2) =
           Inr (e2 @ (if hv then '' votes = :v,'' else []),
                vs2 @ (if hv then [('':v'', vv)] else []))"
    and "add_field j ''ttl'' '':ttl'' (e3, vs3) =
           Inr (e3 @ (if hl then '' ttl = :ttl,'' else []),
                vs3 @ (if hl then [('':ttl'', vl)] else []))"
  using assms by (auto simp: add_field_def)

lemma set_clauses_built:
  "hc \<or> ht \<or> hv \<or> hl \<Longrightarrow>
   set_clauses (butlast (''set'' @ (if hc then '' content = :c,'' else [])
                   @ (if ht then '' timestamp = :t,'' else [])
                   @ (if hv then '' votes = :v,'' else [])
                   @ (if hl then '' ttl = :ttl,'' else [])))
     = Some ((if hc then [(''content'', '':c'')] else []) @ (if ht then [(''timestamp'', '':t'')] else [])
         @ (if hv then [(''votes'', '':v'')] else []) @ (if hl then [(''ttl'', '':ttl'')] else []))"
  by (cases hc; cases ht; cases hv; cases hl)
     (simp_all add: set_clauses_def parse_assignment_def trim_def)

lemma calls_bind_return:
  "calls (snd (bind_io m (\<lambda>x. return (g x)) w)) = calls (snd (m w))"
  by (simp add: bind_io_def return_def split: prod.splits sum.splits)

text \<open>
  C3 (corrected). The claim covers every PATCH request that has an \<open>id\<close> parameter. The
  handler treats an empty \<open>id\<close> as missing: the request \<open>id=\<close> with the body
  \<open>{"votes":0}\<close> is answered with status 400 and no update is issued, although \<open>votes\<close>
  is an own property of the parsed body.
\<close>

theorem patch_with_empty_id_updates_nothing:
  "handler node (request ''PATCH'' [(''id'', [])] (Some ''{\"votes\":0}'')) world0
     = (Fulfilled \<lparr>statusCode = 400, headers = None,
                   body = JSON_stringify (Some (JObj [(''error'', JStr ''Missing post ID'')]))\<rparr>,
        world0)
   \<and> owned_fields (JObj [(''votes'', JNum 0)]) = [(''votes'', '':v'')]"
proof -
  let ?ev = "request ''PATCH'' [(''id'', [])] (Some ''{\"votes\":0}'')"
  have m: "httpMethod ?ev = ''PATCH''" by (simp add: request_def)
  have tq: "\<not> truthy (query ?ev ''id'')" by (simp add: query_def param_def request_def)
  have "handler node ?ev world0
     = (Fulfilled \<lparr>statusCode = 400, headers = None,
                   body = JSON_stringify (Some (JObj [(''error'', JStr ''Missing post ID'')]))\<rparr>,
        world0)"
    by (simp add: handler_PATCH[OF m] handlePatch_def io_defs tq)
  moreover have "owned_fields (JObj [(''votes'', JNum 0)]) = [(''votes'', '':v'')]"
    by (simp add: owned_fields_def hasOwnProperty_def)
  ultimately show ?thesis by simp
qed

text \<open>
  C3 as amended: for every PATCH request whose \<open>id\<close> parameter is not empty and whose body
  parses to a value that is not \<open>null\<close> and has no own property named \<open>hasOwnProperty\<close>,
  a field among \<open>content\<close>, \<open>timestamp\<close>, \<open>votes\<close>, \<open>ttl\<close> is included in the storage
  update if and only if it is an own property of the parsed body, whatever its value:
  when the body owns none of them no storage request is issued; otherwise exactly one
  update is issued, for the key the \<open>id\<close> converts to, whose expression assigns exactly
  the owned fields, each from its placeholder, and whose values give each placeholder
  the value the body has for the field.
\<close>

theorem patch_updates_owned_fields:
  assumes "httpMethod ev = ''PATCH''"
    and "nonempty (param ev ''id'')"
    and "parse_body rt ev = Inr j"
    and "inherits_hasOwnProperty j"
  shows
    "(let fs = owned_fields j; w' = snd (handler rt ev w) in
        (fs = [] \<longrightarrow> calls w' = calls w)
      \<and> (fs \<noteq> [] \<longrightarrow>
           (\<exists>expr vals.
              calls w' = calls w @ [Update (ToNumber rt (query ev ''id'')) expr vals]
            \<and> set_clauses expr = Some fs
            \<and> map fst vals = map snd fs
            \<and> (\<forall>(f, ph) \<in> set fs. get_property j f = Inr (map_of vals ph)))))"
proof -
  from inherits_total[OF assms(4)] obtain hc ht hv hl where
    h: "hasOwnProperty j ''content'' = Inr hc" "hasOwnProperty j ''timestamp'' = Inr ht"
       "hasOwnProperty j ''votes'' = Inr hv" "hasOwnProperty j ''ttl'' = Inr hl"
    by meson
  have "\<exists>v. hc \<longrightarrow> get_property j ''content'' = Inr (Some v)"
    using owned_is_object[of "''content''" j] h(1) by auto
  then obtain vc where vc: "hc \<longrightarrow> get_property j ''content'' = Inr (Some vc)" ..
  have "\<exists>v. ht \<longrightarrow> get_property j ''timestamp'' = Inr (Some v)"
    using owned_is_object[of "''timestamp''" j] h(2) by auto
  then obtain vt where vt: "ht \<longrightarrow> get_property j ''timestamp'' = Inr (Some vt)" ..
  have "\<exists>v. hv \<longrightarrow> get_property j ''votes'' = Inr (Some v)"
    using owned_is_object[of "''votes''" j] h(3) by auto
  then obtain vv where vv: "hv \<longrightarrow> get_property j ''votes'' = Inr (Some vv)" ..
  have "\<exists>v. hl \<longrightarrow> get_property j ''ttl'' = Inr (Some v)"
    using owned_is_object[of "''ttl''" j] h(4) by auto
  then obtain vl where vl: "hl \<longrightarrow> get_property j ''ttl'' = Inr (Some vl)" ..
  note acc = patch_accumulate[OF h vc vt vv vl]
  let ?fs = "(if hc then [(''content'', '':c'')] else []) @ (if ht then [(''timestamp'', '':t'')] else [])
         @ (if hv then [(''votes'', '':v'')] else []) @ (if hl then [(''ttl'', '':ttl'')] else [])"
  let ?expr = "''set'' @ (if hc then '' content = :c,'' else [])
                   @ (if ht then '' timestamp = :t,'' else [])
                   @ (if hv then '' votes = :v,'' else [])
                   @ (if hl then '' ttl = :ttl,'' else [])"
  let ?vals = "(if hc then [('':c'', vc)] else []) @ (if ht then [('':t'', vt)] else [])
         @ (if hv then [('':v'', vv)] else []) @ (if hl then [('':ttl'', vl)] else [])"
  have fs: "owned_fields j = ?fs" by (rule owned_fields_eq[OF h])
  have run: "handlePatch rt ev w =
      async (if ?expr = ''set'' then
               return \<lparr>statusCode = 400, headers = None,
                       body = JSON_stringify (Some (JObj [(''error'', JStr ''No fields to update'')]))\<rparr>
             else
               bind_io (update_item (ToNumber rt (query ev ''id'')) (butlast ?expr) ?vals)
                 (\<lambda>Attributes. return \<lparr>statusCode = 200, headers = None,
                        body = JSON_stringify (Some (post_json Attributes))\<rparr>)) w"
    using assms(2,3)
    by (simp add: handlePatch_def truthy_query async_def bind_io_def lift_def acc)
  have none: "calls (snd (handler rt ev w)) = calls w" if "?fs = []"
  proof -
    from that have "\<not> hc" "\<not> ht" "\<not> hv" "\<not> hl" by (auto split: if_splits)
    then show ?thesis
      by (simp add: handler_PATCH[OF assms(1)] run async_def return_def)
  qed
  have some: "\<exists>expr vals.
              calls (snd (handler rt ev w)) = calls w @ [Update (ToNumber rt (query ev ''id'')) expr vals]
            \<and> set_clauses expr = Some ?fs
            \<and> map fst vals = map snd ?fs
            \<and> (\<forall>(f, ph) \<in> set ?fs. get_property j f = Inr (map_of vals ph))"
    if "?fs \<noteq> []"
  proof -
    from that have any: "hc \<or> ht \<or> hv \<or> hl" by (auto split: if_splits)
    then have ne: "?expr \<noteq> ''set''" by auto
    have c: "calls (snd (handler rt ev w)) =
               calls w @ [Update (ToNumber rt (query ev ''id'')) (butlast ?expr) ?vals]"
      unfolding handler_PATCH[OF assms(1)] run
      using ne by (simp only: if_False calls_async calls_bind_return calls_update_item)
    have p: "set_clauses (butlast ?expr) = Some ?fs" using any by (rule set_clauses_built)
    have k: "map fst ?vals = map snd ?fs" by simp
    have v: "\<forall>(f, ph) \<in> set ?fs. get_property j f = Inr (map_of ?vals ph)"
      using vc vt vv vl by (cases hc; cases ht; cases hv; cases hl) simp_all
    from c p k v show ?thesis by blast
  qed
  from none some show ?thesis
    unfolding Let_def fs by blast
qed

theorem patch_updates_owned_fields_witness:
  "\<exists>expr vals.
     calls (snd (handler node (request ''PATCH'' [(''id'', ''7'')]
                   (Some ''{\"content\":\"\",\"votes\":0,\"ttl\":false}'')) world0))
       = [Update (Fin 7) expr vals]
   \<and> set_clauses expr = Some [(''content'', '':c''), (''votes'', '':v''), (''ttl'', '':ttl'')]
   \<and> map fst vals = ['':c'', '':v'', '':ttl'']
   \<and> map_of vals '':c'' = Some (JStr [])
   \<and> map_of vals '':v'' = Some (JNum 0)
   \<and> map_of vals '':ttl'' = Some (JBool False)"
proof -
  let ?ev = "request ''PATCH'' [(''id'', ''7'')]
               (Some ''{\"content\":\"\",\"votes\":0,\"ttl\":false}'')"
  let ?j = "JObj [(''content'', JStr []), (''votes'', JNum 0), (''ttl'', JBool False)]"
  have a1: "httpMethod ?ev = ''PATCH''" by (simp add: request_def)
  have a2: "nonempty (param ?ev ''id'')" by (simp add: request_def param_def nonempty_def)
  have a3: "parse_body node ?ev = Inr ?j" by (simp add: fixture_defs)
  have a4: "inherits_hasOwnProperty ?j" by (simp add: inherits_hasOwnProperty_def)
  have fs: "owned_fields ?j = [(''content'', '':c''), (''votes'', '':v''), (''ttl'', '':ttl'')]"
    by (simp add: owned_fields_def hasOwnProperty_def)
  have key: "ToNumber node (query ?ev ''id'') = Fin 7"
    by (simp add: query_def param_def request_def node_def integer_literal_def digit_of_def)
  have c0: "calls world0 = []" by (simp add: world0_def)
  from patch_updates_owned_fields[OF a1 a2 a3 a4, of world0]
  obtain expr vals where
    "calls (snd (handler node ?ev world0)) = [Update (Fin 7) expr vals]"
    "set_clauses expr = Some [(''content'', '':c''), (''votes'', '':v''), (''ttl'', '':ttl'')]"
    "map fst vals = ['':c'', '':v'', '':ttl'']"
    "Some (JStr []) = map_of vals '':c''"
    "Some (JNum 0) = map_of vals '':v''"
    "Some (JBool False) = map_of vals '':ttl''"
    unfolding Let_def fs key c0 by (auto simp: get_property_def)
  then have
    "calls (snd (handler node ?ev world0)) = [Update (Fin 7) expr vals]
   \<and> set_clauses expr = Some [(''content'', '':c''), (''votes'', '':v''), (''ttl'', '':ttl'')]
   \<and> map fst vals = ['':c'', '':v'', '':ttl'']
   \<and> map_of vals '':c'' = Some (JStr [])
   \<and> map_of vals '':v'' = Some (JNum 0)
   \<and> map_of vals '':ttl'' = Some (JBool False)"
    by simp
  then show ?thesis by - (rule exI[of _ expr], rule exI[of _ vals], assumption)
qed

section \<open>Which requests write the ttl\<close>






section \<open>The body of a response\<close>

lemma find_None_id:
  "(find (\<lambda>p. post_id p = k) tbl = None) = (\<forall>p \<in> set tbl. Fin (post_id p) \<noteq> Fin k)"
  by (induction tbl) auto

lemma handleGet_body:
  assumes "fst (handleGet rt ev w) = Fulfilled r"
  shows "(body r = None) =
           (mode_by_value ev = ById
            \<and> (\<forall>p \<in> set (table w). Fin (post_id p) \<noteq> ToNumber rt (query ev ''id'')))"
proof (cases "mode_by_value ev")
  case Latest
  with assms show ?thesis
    by (auto simp: handleGet_mode run_mode_def async_def latest_run JSON_stringify_def)
next
  case Before
  with assms show ?thesis
    by (auto simp: handleGet_mode run_mode_def async_def before_run JSON_stringify_def Let_def
             split: if_splits)
next
  case ListAll
  with assms show ?thesis
    by (auto simp: handleGet_mode run_mode_def async_def all_run JSON_stringify_def)
next
  case ById
  show ?thesis
  proof (cases "ToNumber rt (query ev ''id'')")
    case (Fin k)
    with ById assms have "body r = JSON_stringify (map_option post_json (find (\<lambda>p. post_id p = k) (table w)))"
      by (auto simp: handleGet_mode run_mode_def async_def id_run)
    then have "(body r = None) = (find (\<lambda>p. post_id p = k) (table w) = None)"
      by (simp add: JSON_stringify_def)
    with ById Fin show ?thesis by (simp add: find_None_id)
  qed (use ById assms in \<open>simp_all add: handleGet_mode run_mode_def async_def id_run\<close>)
qed

lemma handleGet_id_status:
  "fst (handleGet rt ev w) = Fulfilled r \<Longrightarrow> mode_by_value ev = ById \<Longrightarrow> statusCode r = 200"
  by (cases "ToNumber rt (query ev ''id'')")
     (auto simp: handleGet_mode run_mode_def async_def id_run)

lemma handlePut_body: "fst (handlePut rt ev w) = Fulfilled r \<Longrightarrow> body r \<noteq> None"
proof (cases "parse_body rt ev")
  case (Inl e)
  assume "fst (handlePut rt ev w) = Fulfilled r"
  with Inl show ?thesis by (simp add: handlePut_rejected(1))
next
  case (Inr j)
  assume f: "fst (handlePut rt ev w) = Fulfilled r"
  show ?thesis
  proof (cases "j = JNull")
    case True
    with Inr f handlePut_rejected(2)[of rt ev w] show ?thesis by auto
  next
    case False
    from False obtain cv tv vv where gp: "get_property j ''content'' = Inr cv"
      "get_property j ''timestamp'' = Inr tv" "get_property j ''votes'' = Inr vv"
      using get_property_not_null by meson
    from handlePut_run[OF Inr False gp, of w] f show ?thesis
      by (auto simp: Let_def JSON_stringify_def)
  qed
qed

lemma handlePatch_body: "fst (handlePatch rt ev w) = Fulfilled r \<Longrightarrow> body r \<noteq> None"
  by (auto simp: handlePatch_def io_defs JSON_stringify_def
           split: if_splits sum.splits prod.splits)

lemma handleDelete_body: "fst (handleDelete rt ev w) = Fulfilled r \<Longrightarrow> body r \<noteq> None"
  by (auto simp: handleDelete_def io_defs JSON_stringify_def
           split: if_splits sum.splits prod.splits)

lemma handler_other_body:
  "httpMethod ev \<noteq> ''GET'' \<Longrightarrow> httpMethod ev \<noteq> ''PUT'' \<Longrightarrow> httpMethod ev \<noteq> ''PATCH'' \<Longrightarrow>
   httpMethod ev \<noteq> ''DELETE'' \<Longrightarrow> fst (handler rt ev w) = Fulfilled r \<Longrightarrow> body r \<noteq> None"
  by (auto simp: handler_def try_block_def handleOptions_def io_defs Let_def JSON_stringify_def
           split: if_splits)

text \<open>
  C9 (corrected). The claim says that the body of every response is a JSON-encoded string,
  in particular for a GET request whose \<open>id\<close> names no record. For such a request the
  storage layer returns no item, and \<open>JSON.stringify(undefined)\<close> is \<open>undefined\<close>: the
  response has status 200 and no body.
\<close>

theorem get_absent_id_has_no_body:
  "fst (handler node (request ''GET'' [(''id'', ''42'')] None) world0)
     = Fulfilled \<lparr>statusCode = 200, headers = None, body = None\<rparr>"
  by (simp add: handler_def try_block_def io_defs storage_defs get_defs fixture_defs)

text \<open>
  C9 as amended: the body of every response that the handler returns is a JSON-encoded
  string, except for a GET request in id mode (\<open>latest\<close> and \<open>before\<close> absent or empty,
  \<open>id\<close> not empty) whose id no stored record has: that response has status 200 and its
  body is \<open>undefined\<close>.
\<close>

theorem body_undefined_only_for_absent_id:
  assumes "fst (handler rt ev w) = Fulfilled r"
  shows "(body r = None) =
           (httpMethod ev = ''GET'' \<and> mode_by_value ev = ById
            \<and> (\<forall>p \<in> set (table w). Fin (post_id p) \<noteq> ToNumber rt (query ev ''id'')))
         \<and> (body r = None \<longrightarrow> statusCode r = 200)"
proof -
  have eq: "(body r = None) =
           (httpMethod ev = ''GET'' \<and> mode_by_value ev = ById
            \<and> (\<forall>p \<in> set (table w). Fin (post_id p) \<noteq> ToNumber rt (query ev ''id'')))"
  proof (cases "httpMethod ev = ''GET''")
    case True
    with assms handleGet_body[of rt ev w r] show ?thesis by (simp add: handler_GET)
  next
    case ng: False
    have "body r \<noteq> None"
    proof (cases "httpMethod ev = ''PUT''")
      case True
      with assms show ?thesis by (simp add: handler_PUT handlePut_body)
    next
      case np: False
      show ?thesis
      proof (cases "httpMethod ev = ''PATCH''")
        case True
        with assms show ?thesis by (simp add: handler_PATCH handlePatch_body)
      next
        case npa: False
        show ?thesis
        proof (cases "httpMethod ev = ''DELETE''")
          case True
          with assms show ?thesis by (simp add: handler_DELETE handleDelete_body)
        next
          case False
          from handler_other_body[OF ng np npa False assms] show ?thesis .
        qed
      qed
    qed
    with ng show ?thesis by simp
  qed
  have st: "body r = None \<longrightarrow> statusCode r = 200"
  proof
    assume "body r = None"
    with eq have g: "httpMethod ev = ''GET''" and m: "mode_by_value ev = ById" by simp_all
    from assms g have "fst (handleGet rt ev w) = Fulfilled r" by (simp add: handler_GET)
    then show "statusCode r = 200" using m by (rule handleGet_id_status)
  qed
  from eq st show ?thesis by (rule conjI)
qed

theorem body_undefined_only_for_absent_id_witness:
  "fst (handler node (request ''GET'' [(''id'', ''2'')] None) world0)
     = Fulfilled \<lparr>statusCode = 200, headers = None,
                  body = JSON_stringify (Some (post_json postB))\<rparr>
   \<and> (body \<lparr>statusCode = 200, headers = None,
             body = JSON_stringify (Some (post_json postB))\<rparr> = None)
     = (httpMethod (request ''GET'' [(''id'', ''2'')] None) = ''GET''
        \<and> mode_by_value (request ''GET'' [(''id'', ''2'')] None) = ById
        \<and> (\<forall>p \<in> set (table world0).
              Fin (post_id p) \<noteq> ToNumber node (query (request ''GET'' [(''id'', ''2'')] None) ''id'')))"
proof -
  let ?ev = "request ''GET'' [(''id'', ''2'')] None"
  let ?r = "\<lparr>statusCode = 200, headers = None, body = JSON_stringify (Some (post_json postB))\<rparr>"
  have f: "fst (handler node ?ev world0) = Fulfilled ?r"
    by (simp add: handler_def try_block_def io_defs storage_defs get_defs fixture_defs)
  from f body_undefined_only_for_absent_id[OF f, THEN conjunct1] show ?thesis by (rule conjI)
qed

end
